theory Spec2Isabelle
  imports Complex_Main "HOL-Library.AList"
begin

section \<open>Python values, dictionaries, exceptions and the clock\<close>

text \<open>
  The repository (SwarmForge: \<^verbatim>\<open>agents.py\<close> and \<^verbatim>\<open>graph.py\<close>) builds its log entries,
  result mappings and records as Python dictionaries with string keys and values of
  mixed type. A dictionary is modelled as an association list in insertion order, read
  with \<^const>\<open>map_of\<close> and written with \<^const>\<open>AList.update\<close> (an existing key keeps its place
  and gets the new value, a new key goes to the end, as in Python). A dictionary literal
  with distinct keys is the list of its items.

  Floats are modelled as reals: rounding is abstracted. \<open>PStamp r\<close> is the text
  \<^verbatim>\<open>datetime.isoformat()\<close> of the clock reading \<open>r\<close>, kept as the reading.
\<close>

datatype pyval =
    PNone
  | PInt int
  | PFloat real
  | PStr string
  | PStamp real
  | PDict "(string \<times> pyval) list"

type_synonym pydict = "(string \<times> pyval) list"

text \<open>The exceptions the modelled code raises, with the message \<^verbatim>\<open>str(e)\<close> gives.\<close>

datatype exn =
    AttributeError string
  | ValueError string
  | KeyError string
  | TypeError string
  | GraphRecursionError string

fun str_exn :: "exn \<Rightarrow> string" where
  "str_exn (AttributeError m) = m"
| "str_exn (ValueError m) = m"
| "str_exn (KeyError k) = [CHR 0x27] @ k @ [CHR 0x27]"
| "str_exn (TypeError m) = m"
| "str_exn (GraphRecursionError m) = m"

text \<open>
  \<^verbatim>\<open>datetime.now()\<close> reads the wall clock. The clock is a sequence of readings (in
  seconds); every function that reads it takes the number of readings made so far and
  returns the number after it. Nothing is assumed about the readings.
\<close>

type_synonym clock = "nat \<Rightarrow> real"

section \<open>agents.py: the agent\<close>

datatype ExecutionMode = SEQUENTIAL | PARALLEL | HIERARCHICAL

datatype AgentRole = RESEARCHER | ANALYZER | SYNTHESIZER | EXECUTOR | COORDINATOR

fun role_value :: "AgentRole \<Rightarrow> string" where
  "role_value RESEARCHER = ''researcher''"
| "role_value ANALYZER = ''analyzer''"
| "role_value SYNTHESIZER = ''synthesizer''"
| "role_value EXECUTOR = ''executor''"
| "role_value COORDINATOR = ''coordinator''"

text \<open>
  \<^verbatim>\<open>AgentConfig\<close> is a dataclass and checks none of its fields (its own \<^verbatim>\<open>tools\<close> field
  defaults to \<^verbatim>\<open>None\<close> against its annotation). The \<^verbatim>\<open>role\<close> field is therefore an
  optional value: \<open>None\<close> is Python's \<^verbatim>\<open>None\<close>, on which the attribute access
  \<^verbatim>\<open>.value\<close> in \<^verbatim>\<open>Agent.execute\<close> raises. With a task and a name that are strings this
  is the only operation of the \<^verbatim>\<open>try\<close> block that can raise.
\<close>

record AgentConfig =
  name :: string
  role :: "AgentRole option"
  tools :: "string list option"
  memory_enabled :: bool
  max_iterations :: int
  timeout :: int

text \<open>
  The language model handle \<^verbatim>\<open>llm\<close> and the list \<^verbatim>\<open>messages\<close> are set by the
  constructor and never used again by the modelled code; they are left out.
\<close>

record Agent =
  config :: AgentConfig
  execution_log :: "pydict list"
  memory :: pydict
  state :: string

definition Agent_init :: "AgentConfig \<Rightarrow> Agent" where
  "Agent_init cfg = \<lparr>config = cfg, execution_log = [], memory = [], state = ''idle''\<rparr>"

text \<open>
  The f-string of \<^verbatim>\<open>Agent.execute\<close>:
  \<^verbatim>\<open>f"Agent {self.config.name} ({self.config.role.value}) processed: {task[:100]}"\<close>.
\<close>

definition placeholder :: "AgentConfig \<Rightarrow> string \<Rightarrow> exn + string" where
  "placeholder cfg task =
     (case role cfg of
        None \<Rightarrow> Inl (AttributeError
                 ([CHR 0x27] @ ''NoneType'' @ [CHR 0x27] @ '' object has no attribute ''
                  @ [CHR 0x27] @ ''value'' @ [CHR 0x27]))
      | Some r \<Rightarrow> Inr (''Agent '' @ name cfg @ '' ('' @ role_value r @ '') processed: ''
                       @ take 100 task))"

text \<open>
  \<^verbatim>\<open>Agent.execute(task)\<close>. The clock is read three times on either path: for
  \<^verbatim>\<open>start_time\<close>, for the duration and for the timestamp of the log entry. \<open>Inl e\<close> is the
  re-raised exception. The unused \<^verbatim>\<open>context\<close> parameter is left out.
\<close>

definition Agent_execute ::
  "clock \<Rightarrow> string \<Rightarrow> Agent \<times> nat \<Rightarrow> (exn + string) \<times> Agent \<times> nat" where
  "Agent_execute clk task = (\<lambda>(self, t).
     let self1 = self\<lparr>state := ''executing''\<rparr>;
         start_time = clk t
     in case placeholder (config self1) task of
          Inr result \<Rightarrow>
            let self2 = self1\<lparr>execution_log := execution_log self1 @
                  [[(''task'', PStr task),
                    (''result'', PStr result),
                    (''duration'', PFloat (clk (t + 1) - start_time)),
                    (''status'', PStr ''completed''),
                    (''timestamp'', PStamp (clk (t + 2)))]]\<rparr>;
                self3 = self2\<lparr>state := ''idle''\<rparr>
            in (Inr result, self3, t + 3)
        | Inl e \<Rightarrow>
            let self2 = self1\<lparr>execution_log := execution_log self1 @
                  [[(''task'', PStr task),
                    (''error'', PStr (str_exn e)),
                    (''duration'', PFloat (clk (t + 1) - start_time)),
                    (''status'', PStr ''failed''),
                    (''timestamp'', PStamp (clk (t + 2)))]]\<rparr>;
                self3 = self2\<lparr>state := ''error''\<rparr>
            in (Inl e, self3, t + 3))"

text \<open>
  \<^verbatim>\<open>Agent.get_execution_stats()\<close>. \<^verbatim>\<open>log["status"]\<close> and \<^verbatim>\<open>log["duration"]\<close> raise
  \<^verbatim>\<open>KeyError\<close> on an entry without the key; \<^verbatim>\<open>sum\<close> starts from the integer 0 and
  raises \<^verbatim>\<open>TypeError\<close> on a value that is not a number.
\<close>

fun status_is :: "string \<Rightarrow> pydict list \<Rightarrow> exn + pydict list" where
  "status_is s [] = Inr []"
| "status_is s (entry # logs) =
     (case map_of entry ''status'' of
        None \<Rightarrow> Inl (KeyError ''status'')
      | Some v \<Rightarrow>
          (case status_is s logs of
             Inl e \<Rightarrow> Inl e
           | Inr rest \<Rightarrow> Inr (if v = PStr s then entry # rest else rest)))"

definition py_add :: "pyval \<Rightarrow> pyval \<Rightarrow> exn + pyval" where
  "py_add a b =
     (case (a, b) of
        (PInt x, PInt y) \<Rightarrow> Inr (PInt (x + y))
      | (PInt x, PFloat y) \<Rightarrow> Inr (PFloat (real_of_int x + y))
      | (PFloat x, PInt y) \<Rightarrow> Inr (PFloat (x + real_of_int y))
      | (PFloat x, PFloat y) \<Rightarrow> Inr (PFloat (x + y))
      | _ \<Rightarrow> Inl (TypeError ''unsupported operand type(s) for +''))"

fun sum_durations :: "pyval \<Rightarrow> pydict list \<Rightarrow> exn + pyval" where
  "sum_durations acc [] = Inr acc"
| "sum_durations acc (entry # logs) =
     (case map_of entry ''duration'' of
        None \<Rightarrow> Inl (KeyError ''duration'')
      | Some d \<Rightarrow>
          (case py_add acc d of
             Inl e \<Rightarrow> Inl e
           | Inr acc' \<Rightarrow> sum_durations acc' logs))"

definition py_truediv_len :: "pyval \<Rightarrow> nat \<Rightarrow> exn + pyval" where
  "py_truediv_len tot n =
     (case tot of
        PInt x \<Rightarrow> Inr (PFloat (real_of_int x / real n))
      | PFloat x \<Rightarrow> Inr (PFloat (x / real n))
      | _ \<Rightarrow> Inl (TypeError ''unsupported operand type(s) for /''))"

definition get_execution_stats :: "Agent \<Rightarrow> exn + pydict" where
  "get_execution_stats self =
     (case status_is ''completed'' (execution_log self) of
        Inl e \<Rightarrow> Inl e
      | Inr completed \<Rightarrow>
     (case status_is ''failed'' (execution_log self) of
        Inl e \<Rightarrow> Inl e
      | Inr failed \<Rightarrow>
     (case sum_durations (PInt 0) (execution_log self) of
        Inl e \<Rightarrow> Inl e
      | Inr total_duration \<Rightarrow>
     (case (if execution_log self \<noteq> []
            then py_truediv_len total_duration (length (execution_log self))
            else Inr (PInt 0)) of
        Inl e \<Rightarrow> Inl e
      | Inr avg \<Rightarrow>
          Inr [(''agent_name'', PStr (name (config self))),
               (''total_executions'', PInt (int (length (execution_log self)))),
               (''successful'', PInt (int (length completed))),
               (''failed'', PInt (int (length failed))),
               (''total_duration'', total_duration),
               (''avg_duration'', avg)]))))"

section \<open>agents.py: the pool\<close>

text \<open>
  \<^verbatim>\<open>AgentPool.agents\<close> is a dictionary from names to agents; iteration follows insertion
  order. Each agent lives under one name only (\<^verbatim>\<open>add_agent\<close> creates a new object for
  every call), so an agent changed in place is written back at its own key.
\<close>

record AgentPool =
  agents :: "(string \<times> Agent) list"
  execution_mode :: ExecutionMode

definition AgentPool_init :: AgentPool where
  "AgentPool_init = \<lparr>agents = [], execution_mode = SEQUENTIAL\<rparr>"

definition add_agent :: "AgentConfig \<Rightarrow> AgentPool \<Rightarrow> AgentPool" where
  "add_agent cfg self = self\<lparr>agents := AList.update (name cfg) (Agent_init cfg) (agents self)\<rparr>"

definition remove_agent :: "string \<Rightarrow> AgentPool \<Rightarrow> AgentPool" where
  "remove_agent agent_name self =
     (if agent_name \<in> fst ` set (agents self)
      then self\<lparr>agents := AList.delete agent_name (agents self)\<rparr> else self)"

definition set_execution_mode :: "ExecutionMode \<Rightarrow> AgentPool \<Rightarrow> AgentPool" where
  "set_execution_mode m self = self\<lparr>execution_mode := m\<rparr>"

text \<open>The two result entries the pool writes for an agent.\<close>

definition success_entry :: "string \<Rightarrow> pyval" where
  "success_entry r = PDict [(''status'', PStr ''success''), (''result'', PStr r)]"

definition failed_entry :: "exn \<Rightarrow> pyval" where
  "failed_entry e = PDict [(''status'', PStr ''failed''), (''error'', PStr (str_exn e))]"

text \<open>
  \<^verbatim>\<open>execute_sequential\<close>: the \<^verbatim>\<open>for\<close> loop over \<^verbatim>\<open>self.agents.items()\<close>, with the
  \<^verbatim>\<open>try\<close>/\<^verbatim>\<open>except\<close> around each call. It returns the agents as the calls left them, the
  results and the clock position.
\<close>

fun sequential_loop ::
  "clock \<Rightarrow> string \<Rightarrow> (string \<times> Agent) list \<Rightarrow> pydict \<times> nat \<Rightarrow>
   (string \<times> Agent) list \<times> pydict \<times> nat" where
  "sequential_loop clk task [] (results, t) = ([], results, t)"
| "sequential_loop clk task ((agent_name, agent) # rest) (results, t) =
     (case Agent_execute clk task (agent, t) of
        (Inr result, agent', t') \<Rightarrow>
          (case sequential_loop clk task rest
                  (AList.update agent_name (success_entry result) results, t') of
             (rest', results', t'') \<Rightarrow> ((agent_name, agent') # rest', results', t''))
      | (Inl e, agent', t') \<Rightarrow>
          (case sequential_loop clk task rest
                  (AList.update agent_name (failed_entry e) results, t') of
             (rest', results', t'') \<Rightarrow> ((agent_name, agent') # rest', results', t'')))"

definition execute_sequential ::
  "clock \<Rightarrow> string \<Rightarrow> AgentPool \<times> nat \<Rightarrow> pydict \<times> AgentPool \<times> nat" where
  "execute_sequential clk task = (\<lambda>(self, t).
     case sequential_loop clk task (agents self) ([], t) of
       (agents', results, t') \<Rightarrow> (results, self\<lparr>agents := agents'\<rparr>, t'))"

text \<open>
  \<^verbatim>\<open>asyncio.gather(*tasks, return_exceptions=True)\<close> over calls of \<^verbatim>\<open>agent.execute(task)\<close>.
  \<^verbatim>\<open>Agent.execute\<close> has no \<^verbatim>\<open>await\<close> in its body, so each call runs from start to end
  without interleaving; the event loop starts the calls in the order they were given,
  and the responses come back in that order, an exception in the place of the call that
  raised it.
\<close>

fun gather ::
  "clock \<Rightarrow> string \<Rightarrow> Agent list \<Rightarrow> nat \<Rightarrow> (exn + string) list \<times> Agent list \<times> nat" where
  "gather clk task [] t = ([], [], t)"
| "gather clk task (agent # rest) t =
     (case Agent_execute clk task (agent, t) of
        (response, agent', t') \<Rightarrow>
          (case gather clk task rest t' of
             (responses, rest', t'') \<Rightarrow> (response # responses, agent' # rest', t'')))"

text \<open>
  The loop over \<^verbatim>\<open>zip(names, responses)\<close> that both \<^verbatim>\<open>execute_parallel\<close> and the worker
  phase of \<^verbatim>\<open>execute_hierarchical\<close> run.
\<close>

fun collect :: "(string \<times> (exn + string)) list \<Rightarrow> pydict \<Rightarrow> pydict" where
  "collect [] results = results"
| "collect ((agent_name, response) # rest) results =
     collect rest
       (AList.update agent_name
          (case response of Inl e \<Rightarrow> failed_entry e | Inr r \<Rightarrow> success_entry r)
          results)"

definition execute_parallel ::
  "clock \<Rightarrow> string \<Rightarrow> AgentPool \<times> nat \<Rightarrow> pydict \<times> AgentPool \<times> nat" where
  "execute_parallel clk task = (\<lambda>(self, t).
     let tasks = map snd (agents self)
     in if tasks \<noteq> [] then
          (case gather clk task tasks t of
             (responses, agents', t') \<Rightarrow>
               (collect (zip (map fst (agents self)) responses) [],
                self\<lparr>agents := zip (map fst (agents self)) agents'\<rparr>,
                t'))
        else ([], self, t))"

text \<open>
  \<^verbatim>\<open>execute_hierarchical(task, coordinator=None)\<close>. \<^verbatim>\<open>not coordinator\<close> holds for
  \<^verbatim>\<open>None\<close> and for the empty string; \<^verbatim>\<open>coordinator and coordinator in self.agents\<close>
  needs a non-empty string that is a key. \<^verbatim>\<open>name != coordinator\<close> holds for every name
  when the coordinator is \<^verbatim>\<open>None\<close>.
\<close>

definition truthy :: "string option \<Rightarrow> bool" where
  "truthy c = (case c of None \<Rightarrow> False | Some s \<Rightarrow> s \<noteq> [])"

text \<open>The coordinator's call (\<^verbatim>\<open># Coordinator processes first\<close>), from \<^verbatim>\<open>results = {}\<close> on.\<close>

definition coordinator_phase ::
  "clock \<Rightarrow> string \<Rightarrow> string option \<Rightarrow> (string \<times> Agent) list \<times> nat \<Rightarrow>
   pydict \<times> (string \<times> Agent) list \<times> nat" where
  "coordinator_phase clk task coordinator = (\<lambda>(agents0, t).
     let results = [] in
     case coordinator of
       None \<Rightarrow> (results, agents0, t)
     | Some c \<Rightarrow>
         (case (if c \<noteq> [] then map_of agents0 c else None) of
            None \<Rightarrow> (results, agents0, t)
          | Some coord_agent \<Rightarrow>
              (case Agent_execute clk (''Coordinate: '' @ task) (coord_agent, t) of
                 (Inr coord_result, coord_agent', t') \<Rightarrow>
                   (AList.update ''coordinator''
                      (PDict [(''agent'', PStr c), (''result'', PStr coord_result)]) results,
                    AList.update c coord_agent' agents0, t')
               | (Inl e, coord_agent', t') \<Rightarrow>
                   (AList.update ''coordinator''
                      (PDict [(''error'', PStr (str_exn e))]) results,
                    AList.update c coord_agent' agents0, t'))))"

text \<open>The workers' calls (\<^verbatim>\<open># Other agents execute in parallel\<close>).\<close>

definition worker_phase ::
  "clock \<Rightarrow> string \<Rightarrow> string option \<Rightarrow> pydict \<times> (string \<times> Agent) list \<times> nat \<Rightarrow>
   pydict \<times> (string \<times> Agent) list \<times> nat" where
  "worker_phase clk task coordinator = (\<lambda>(results, agents1, t).
     let worker_agents = filter (\<lambda>(n, agent). Some n \<noteq> coordinator) agents1
     in if worker_agents \<noteq> [] then
          (case gather clk task (map snd worker_agents) t of
             (worker_results, workers', t') \<Rightarrow>
               (AList.update ''workers''
                  (PDict (collect (zip (map fst worker_agents) worker_results) []))
                  results,
                AList.updates (map fst worker_agents) workers' agents1,
                t'))
        else (results, agents1, t))"

definition execute_hierarchical ::
  "clock \<Rightarrow> string \<Rightarrow> string option \<Rightarrow> AgentPool \<times> nat \<Rightarrow> pydict \<times> AgentPool \<times> nat" where
  "execute_hierarchical clk task coordinator = (\<lambda>(self, t).
     let coordinator1 =
           (if \<not> truthy coordinator \<and> agents self \<noteq> []
            then Some (fst (hd (agents self))) else coordinator)
     in case worker_phase clk task coordinator1
               (coordinator_phase clk task coordinator1 (agents self, t)) of
          (results, agents', t') \<Rightarrow> (results, self\<lparr>agents := agents'\<rparr>, t'))"

text \<open>
  \<^verbatim>\<open>AgentPool.execute\<close>: the chain of comparisons with the three members of
  \<^verbatim>\<open>ExecutionMode\<close>, and the final \<^verbatim>\<open>raise ValueError\<close>.
\<close>

fun mode_str :: "ExecutionMode \<Rightarrow> string" where
  "mode_str SEQUENTIAL = ''ExecutionMode.SEQUENTIAL''"
| "mode_str PARALLEL = ''ExecutionMode.PARALLEL''"
| "mode_str HIERARCHICAL = ''ExecutionMode.HIERARCHICAL''"

definition AgentPool_execute ::
  "clock \<Rightarrow> string \<Rightarrow> AgentPool \<times> nat \<Rightarrow> (exn + pydict) \<times> AgentPool \<times> nat" where
  "AgentPool_execute clk task = (\<lambda>(self, t).
     if execution_mode self = SEQUENTIAL then
       (case execute_sequential clk task (self, t) of (r, self', t') \<Rightarrow> (Inr r, self', t'))
     else if execution_mode self = PARALLEL then
       (case execute_parallel clk task (self, t) of (r, self', t') \<Rightarrow> (Inr r, self', t'))
     else if execution_mode self = HIERARCHICAL then
       (case execute_hierarchical clk task None (self, t) of
          (r, self', t') \<Rightarrow> (Inr r, self', t'))
     else (Inl (ValueError (''Unknown execution mode: '' @ mode_str (execution_mode self))),
           self, t))"

text \<open>
  The entry the pool writes for an agent, as a function of the agent's configuration
  and the task (used to state the results of a pool run).
\<close>

definition entry_of :: "AgentConfig \<Rightarrow> string \<Rightarrow> pyval" where
  "entry_of cfg task =
     (case placeholder cfg task of Inl e \<Rightarrow> failed_entry e | Inr r \<Rightarrow> success_entry r)"

section \<open>agents.py: the orchestrator\<close>

record SwarmOrchestrator =
  agent_pools :: "(string \<times> AgentPool) list"
  task_queue :: "pydict list"
  execution_history :: "pydict list"

definition SwarmOrchestrator_init :: SwarmOrchestrator where
  "SwarmOrchestrator_init = \<lparr>agent_pools = [], task_queue = [], execution_history = []\<rparr>"

definition create_pool :: "string \<Rightarrow> SwarmOrchestrator \<Rightarrow> SwarmOrchestrator" where
  "create_pool pool_name self =
     self\<lparr>agent_pools := AList.update pool_name AgentPool_init (agent_pools self)\<rparr>"

definition get_pool :: "SwarmOrchestrator \<Rightarrow> string \<Rightarrow> AgentPool option" where
  "get_pool self pool_name = map_of (agent_pools self) pool_name"

text \<open>
  \<^verbatim>\<open>execute_task(pool_name, task)\<close>. An \<^verbatim>\<open>AgentPool\<close> object is always true in a
  condition (the class defines neither \<^verbatim>\<open>__bool__\<close> nor \<^verbatim>\<open>__len__\<close>), so
  \<^verbatim>\<open>not pool\<close> holds exactly when \<^verbatim>\<open>get_pool\<close> returned \<^verbatim>\<open>None\<close>. The exception raised
  for an unknown pool is Python's \<^verbatim>\<open>ValueError\<close>.
\<close>

definition execute_task ::
  "clock \<Rightarrow> string \<Rightarrow> string \<Rightarrow> SwarmOrchestrator \<times> nat \<Rightarrow>
   (exn + pydict) \<times> SwarmOrchestrator \<times> nat" where
  "execute_task clk pool_name task = (\<lambda>(self, t).
     case get_pool self pool_name of
       None \<Rightarrow>
         (Inl (ValueError (''Pool '' @ [CHR 0x27] @ pool_name @ [CHR 0x27] @ '' not found'')),
          self, t)
     | Some pool \<Rightarrow>
         let start_time = clk t in
         (case AgentPool_execute clk task (pool, t + 1) of
            (Inl e, pool', t') \<Rightarrow>
              (Inl e, self\<lparr>agent_pools := AList.update pool_name pool' (agent_pools self)\<rparr>, t')
          | (Inr result, pool', t') \<Rightarrow>
              let duration = clk t' - start_time;
                  execution_record =
                    [(''pool'', PStr pool_name),
                     (''task'', PStr task),
                     (''result'', PDict result),
                     (''duration'', PFloat duration),
                     (''timestamp'', PStamp (clk (t' + 1)))]
              in (Inr execution_record,
                  self\<lparr>agent_pools := AList.update pool_name pool' (agent_pools self),
                       execution_history := execution_history self @ [execution_record]\<rparr>,
                  t' + 2)))"


section \<open>graph.py: the memory manager\<close>

text \<open>
  \<^verbatim>\<open>short_term\<close> maps a key to \<^verbatim>\<open>{value, timestamp, ttl}\<close>; \<^verbatim>\<open>long_term\<close> maps a category
  to its bucket, a dictionary from keys to \<^verbatim>\<open>{value, timestamp}\<close>; \<^verbatim>\<open>memory_index\<close>
  maps a category to the list of the keys stored under it.
\<close>

record MemoryManager =
  memory_type :: string
  short_term :: "(string \<times> pydict) list"
  long_term :: "(string \<times> (string \<times> pydict) list) list"
  memory_index :: "(string \<times> string list) list"

definition MemoryManager_init :: MemoryManager where
  "MemoryManager_init =
     \<lparr>memory_type = ''chroma'', short_term = [], long_term = [], memory_index = []\<rparr>"

definition store_short_term ::
  "clock \<Rightarrow> string \<Rightarrow> pyval \<Rightarrow> pyval \<Rightarrow> MemoryManager \<times> nat \<Rightarrow> MemoryManager \<times> nat" where
  "store_short_term clk key v ttl = (\<lambda>(self, t).
     (self\<lparr>short_term := AList.update key
         [(''value'', v), (''timestamp'', PStamp (clk t)), (''ttl'', ttl)]
         (short_term self)\<rparr>,
      t + 1))"

text \<open>\<^verbatim>\<open>data["value"]\<close> raises \<^verbatim>\<open>KeyError\<close> on an entry without the key; a miss is \<^verbatim>\<open>None\<close>.\<close>

definition retrieve_short_term :: "MemoryManager \<Rightarrow> string \<Rightarrow> exn + pyval" where
  "retrieve_short_term self key =
     (case map_of (short_term self) key of
        None \<Rightarrow> Inr PNone
      | Some data \<Rightarrow>
          (case map_of data ''value'' of
             None \<Rightarrow> Inl (KeyError ''value'')
           | Some v \<Rightarrow> Inr v))"

text \<open>
  \<^verbatim>\<open>store_long_term(key, value, category)\<close>: the bucket is created when the category
  is new, the entry is written into the bucket of the category in place
  (\<^const>\<open>AList.map_entry\<close>), and the same two steps append the key to the index.
\<close>

definition store_long_term ::
  "clock \<Rightarrow> string \<Rightarrow> pyval \<Rightarrow> string \<Rightarrow> MemoryManager \<times> nat \<Rightarrow> MemoryManager \<times> nat" where
  "store_long_term clk key v category = (\<lambda>(self, t).
     let long_term1 =
           (if category \<notin> fst ` set (long_term self)
            then AList.update category [] (long_term self) else long_term self);
         long_term2 =
           AList.map_entry category
             (AList.update key [(''value'', v), (''timestamp'', PStamp (clk t))])
             long_term1;
         index1 =
           (if category \<notin> fst ` set (memory_index self)
            then AList.update category [] (memory_index self) else memory_index self);
         index2 = AList.map_entry category (\<lambda>keys. keys @ [key]) index1
     in (self\<lparr>long_term := long_term2, memory_index := index2\<rparr>, t + 1))"

definition retrieve_long_term :: "MemoryManager \<Rightarrow> string \<Rightarrow> string \<Rightarrow> exn + pyval" where
  "retrieve_long_term self key category =
     (case map_of (long_term self) category of
        None \<Rightarrow> Inr PNone
      | Some bucket \<Rightarrow>
          (case map_of bucket key of
             None \<Rightarrow> Inr PNone
           | Some data \<Rightarrow>
               (case map_of data ''value'' of
                  None \<Rightarrow> Inl (KeyError ''value'')
                | Some v \<Rightarrow> Inr v)))"

definition clear_short_term :: "MemoryManager \<Rightarrow> MemoryManager" where
  "clear_short_term self = self\<lparr>short_term := []\<rparr>"

text \<open>
  The operations of the memory manager, as calls. \<^verbatim>\<open>retrieve_short_term\<close>,
  \<^verbatim>\<open>retrieve_long_term\<close>, \<^verbatim>\<open>search_memory\<close> and \<^verbatim>\<open>get_memory_stats\<close> only read: they
  assign to no attribute and change no dictionary, and do not read the clock. \<open>apply_op\<close>
  is the effect of a call on the store.
\<close>

datatype memory_op =
    Store_short_term string pyval pyval
  | Retrieve_short_term string
  | Store_long_term string pyval string
  | Retrieve_long_term string string
  | Search_memory string string
  | Clear_short_term
  | Get_memory_stats

fun apply_op :: "clock \<Rightarrow> memory_op \<Rightarrow> MemoryManager \<times> nat \<Rightarrow> MemoryManager \<times> nat" where
  "apply_op clk (Store_short_term key v ttl) s = store_short_term clk key v ttl s"
| "apply_op clk (Retrieve_short_term key) s = s"
| "apply_op clk (Store_long_term key v category) s = store_long_term clk key v category s"
| "apply_op clk (Retrieve_long_term key category) s = s"
| "apply_op clk (Search_memory query category) s = s"
| "apply_op clk Clear_short_term (self, t) = (clear_short_term self, t)"
| "apply_op clk Get_memory_stats s = s"

fun apply_ops :: "clock \<Rightarrow> memory_op list \<Rightarrow> MemoryManager \<times> nat \<Rightarrow> MemoryManager \<times> nat" where
  "apply_ops clk [] s = s"
| "apply_ops clk (op # ops) s = apply_ops clk ops (apply_op clk op s)"

section \<open>graph.py: the evaluation engine\<close>

record EvaluationEngine =
  evaluation_history :: "pydict list"

definition EvaluationEngine_init :: EvaluationEngine where
  "EvaluationEngine_init = \<lparr>evaluation_history = []\<rparr>"

text \<open>
  The loop of \<^verbatim>\<open>evaluate_output\<close> over \<^verbatim>\<open>criteria.items()\<close>, with the scores written so
  far and \<^verbatim>\<open>total_score\<close>. The length of a Python string is its number of code
  points; a character of the model stands for one code point.
\<close>

fun score_loop :: "string \<Rightarrow> (string \<times> string) list \<Rightarrow> pydict \<times> real \<Rightarrow> pydict \<times> real" where
  "score_loop output [] (scores, total_score) = (scores, total_score)"
| "score_loop output ((criterion, description) # rest) (scores, total_score) =
     (let score0 = real (length output) / 1000;
          score = min score0 1
      in score_loop output rest
           (AList.update criterion (PFloat score) scores, total_score + score))"

definition evaluate_output ::
  "clock \<Rightarrow> string \<Rightarrow> (string \<times> string) list \<Rightarrow> EvaluationEngine \<times> nat \<Rightarrow>
   pydict \<times> EvaluationEngine \<times> nat" where
  "evaluate_output clk output criteria = (\<lambda>(self, t).
     let evaluation0 =
           [(''output'', PStr (if length output > 100 then take 100 output @ ''...''
                               else output)),
            (''criteria_scores'', PDict []),
            (''overall_score'', PFloat 0),
            (''timestamp'', PStamp (clk t))];
         evaluation =
           (if criteria \<noteq> [] then
              (case score_loop output criteria ([], 0) of
                 (scores, total_score) \<Rightarrow>
                   AList.update ''overall_score''
                     (PFloat (total_score / real (length criteria)))
                     (AList.update ''criteria_scores'' (PDict scores) evaluation0))
            else evaluation0)
     in (evaluation, self\<lparr>evaluation_history := evaluation_history self @ [evaluation]\<rparr>,
         t + 1))"

section \<open>graph.py: the pipeline\<close>

datatype message = HumanMessage string | AIMessage string

text \<open>
  \<^verbatim>\<open>SwarmState\<close> is a typed dictionary with a fixed set of keys; its fields carry the
  prefix \<open>s_\<close> here. The fields of \<^verbatim>\<open>SwarmGraph\<close> that the stages use are the memory
  manager and the evaluation engine (prefix \<open>graph_\<close>).
\<close>

record SwarmState =
  s_task :: string
  s_messages :: "message list"
  s_agent_results :: pydict
  s_evaluation_results :: pydict
  s_short_term_memory :: "(string \<times> pydict) list"
  s_long_term_memory :: "(string \<times> (string \<times> pydict) list) list"
  s_status :: string

record SwarmGraph =
  graph_memory :: MemoryManager
  graph_evaluator :: EvaluationEngine

definition SwarmGraph_init :: SwarmGraph where
  "SwarmGraph_init =
     \<lparr>graph_memory = MemoryManager_init, graph_evaluator = EvaluationEngine_init\<rparr>"

type_synonym pipeline = "SwarmGraph \<times> SwarmState \<times> nat"

definition process_input :: "clock \<Rightarrow> pipeline \<Rightarrow> exn + pipeline" where
  "process_input clk = (\<lambda>(self, st, t).
     let st1 = st\<lparr>s_messages := s_messages st @ [HumanMessage (s_task st)]\<rparr>;
         st2 = st1\<lparr>s_status := ''input_processed''\<rparr>
     in case store_short_term clk ''current_task'' (PStr (s_task st2)) PNone
               (graph_memory self, t) of
          (mem, t') \<Rightarrow> Inr (self\<lparr>graph_memory := mem\<rparr>, st2, t'))"

definition agent_execution :: "clock \<Rightarrow> pipeline \<Rightarrow> exn + pipeline" where
  "agent_execution clk = (\<lambda>(self, st, t).
     let st1 = st\<lparr>s_status := ''agents_executed''\<rparr>;
         st2 = st1\<lparr>s_agent_results :=
                 [(''primary_agent'', PStr (''Processing: '' @ take 50 (s_task st1) @ ''...'')),
                  (''timestamp'', PStamp (clk t))]\<rparr>
     in Inr (self, st2, t + 1))"

text \<open>
  \<^verbatim>\<open>_evaluation\<close> reads \<^verbatim>\<open>state["agent_results"].get("primary_agent", "")\<close>. The stage
  before it always stores a string there; for a value that is not a string what
  \<^verbatim>\<open>evaluate_output\<close> does depends on the value, and the model records a
  \<^verbatim>\<open>TypeError\<close>.
\<close>

definition evaluation :: "clock \<Rightarrow> pipeline \<Rightarrow> exn + pipeline" where
  "evaluation clk = (\<lambda>(self, st, t).
     let criteria = [(''relevance'', ''Is it relevant?''),
                     (''completeness'', ''Is it complete?'')]
     in case (case map_of (s_agent_results st) ''primary_agent'' of
                None \<Rightarrow> Inr []
              | Some (PStr s) \<Rightarrow> Inr s
              | Some _ \<Rightarrow> Inl (TypeError ''output is not a string'')) of
          Inl e \<Rightarrow> Inl e
        | Inr output \<Rightarrow>
            (case evaluate_output clk output criteria (graph_evaluator self, t) of
               (eval_result, ev, t') \<Rightarrow>
                 let st1 = st\<lparr>s_evaluation_results := eval_result\<rparr>;
                     st2 = st1\<lparr>s_status := ''evaluated''\<rparr>
                 in Inr (self\<lparr>graph_evaluator := ev\<rparr>, st2, t')))"

text \<open>\<^verbatim>\<open>str(n)\<close> for a length: the decimal digits of a natural number.\<close>

fun str_nat :: "nat \<Rightarrow> string" where
  "str_nat n =
     (if n < 10 then [char_of (48 + n)]
      else str_nat (n div 10) @ [char_of (48 + n mod 10)])"

declare str_nat.simps [simp del]

definition memory_update :: "clock \<Rightarrow> pipeline \<Rightarrow> exn + pipeline" where
  "memory_update clk = (\<lambda>(self, st, t).
     let bucket = (case map_of (long_term (graph_memory self)) ''tasks'' of
                     None \<Rightarrow> [] | Some b \<Rightarrow> b)
     in case store_long_term clk (''task_'' @ str_nat (length bucket))
               (PDict [(''task'', PStr (s_task st)),
                       (''results'', PDict (s_agent_results st)),
                       (''evaluation'', PDict (s_evaluation_results st))])
               ''tasks'' (graph_memory self, t) of
          (mem, t') \<Rightarrow>
            let st1 = st\<lparr>s_short_term_memory := short_term mem\<rparr>;
                st2 = st1\<lparr>s_long_term_memory := long_term mem\<rparr>;
                st3 = st2\<lparr>s_status := ''memory_updated''\<rparr>
            in Inr (self\<lparr>graph_memory := mem\<rparr>, st3, t'))"

definition aggregate_results :: "clock \<Rightarrow> pipeline \<Rightarrow> exn + pipeline" where
  "aggregate_results clk = (\<lambda>(self, st, t).
     let st1 = st\<lparr>s_status := ''completed''\<rparr>;
         st2 = st1\<lparr>s_messages := s_messages st1 @
                 [AIMessage (''Task completed: '' @ take 50 (s_task st1) @ ''...'')]\<rparr>
     in Inr (self, st2, t))"

text \<open>
  \<^verbatim>\<open>_build_graph\<close>: the nodes by name, the edges and the entry point, as data.
  \<open>END\<close> is LangGraph's end marker.
\<close>

definition END :: string where
  "END = ''__end__''"

definition nodes :: "(string \<times> (clock \<Rightarrow> pipeline \<Rightarrow> exn + pipeline)) list" where
  "nodes = [(''process_input'', process_input),
            (''agent_execution'', agent_execution),
            (''evaluation'', evaluation),
            (''memory_update'', memory_update),
            (''aggregate_results'', aggregate_results)]"

definition edges :: "(string \<times> string) list" where
  "edges = [(''process_input'', ''agent_execution''),
            (''agent_execution'', ''evaluation''),
            (''evaluation'', ''memory_update''),
            (''memory_update'', ''aggregate_results''),
            (''aggregate_results'', END)]"

definition entry_point :: string where
  "entry_point = ''process_input''"

text \<open>
  \<^verbatim>\<open>self.graph.invoke\<close> is LangGraph's. For a graph whose nodes have one outgoing edge
  each, it runs the node at the entry point and follows the edges until \<open>END\<close>, each
  node receiving the state the node before it returned; an exception of a node ends the
  run, and so does reaching the step limit (\<^verbatim>\<open>recursion_limit\<close>, 25 by default, with
  LangGraph's \<^verbatim>\<open>GraphRecursionError\<close>). The first argument is the number of steps left.
  A compiled graph has a node for every name on an edge; the model returns an error for
  a name without one.
\<close>

fun invoke_from :: "nat \<Rightarrow> clock \<Rightarrow> string \<Rightarrow> pipeline \<Rightarrow> exn + pipeline" where
  "invoke_from 0 clk n s = Inl (GraphRecursionError ''Recursion limit reached'')"
| "invoke_from (Suc k) clk n s =
     (if n = END then Inr s
      else case map_of nodes n of
             None \<Rightarrow> Inl (ValueError (''unknown node '' @ n))
           | Some f \<Rightarrow>
               (case f clk s of
                  Inl e \<Rightarrow> Inl e
                | Inr s' \<Rightarrow>
                    (case map_of edges n of
                       None \<Rightarrow> Inr s'
                     | Some n' \<Rightarrow> invoke_from k clk n' s')))"

definition recursion_limit :: nat where
  "recursion_limit = 25"

text \<open>\<^verbatim>\<open>SwarmGraph.run(task)\<close>: the fresh initial state, driven through the graph.\<close>

definition initial_state :: "string \<Rightarrow> SwarmState" where
  "initial_state tsk =
     \<lparr>s_task = tsk, s_messages = [], s_agent_results = [], s_evaluation_results = [],
      s_short_term_memory = [], s_long_term_memory = [], s_status = ''initialized''\<rparr>"

definition run :: "clock \<Rightarrow> string \<Rightarrow> SwarmGraph \<times> nat \<Rightarrow> exn + pipeline" where
  "run clk tsk = (\<lambda>(self, t).
     invoke_from recursion_limit clk entry_point (self, initial_state tsk, t))"

text \<open>A sequence of runs on the same graph object, one task after the other.\<close>

fun runs :: "clock \<Rightarrow> string list \<Rightarrow> SwarmGraph \<times> nat \<Rightarrow> exn + SwarmGraph \<times> nat" where
  "runs clk [] s = Inr s"
| "runs clk (tsk # tsks) s =
     (case run clk tsk s of
        Inl e \<Rightarrow> Inl e
      | Inr (self, st, t) \<Rightarrow> runs clk tsks (self, t))"


section \<open>Notions used in the statements\<close>

text \<open>
  The invariant of the memory manager: every key of a long-term bucket occurs in the
  index of the bucket's category.
\<close>

definition index_covers :: "MemoryManager \<Rightarrow> bool" where
  "index_covers m =
     (\<forall>category bucket key. map_of (long_term m) category = Some bucket \<longrightarrow>
        key \<in> fst ` set bucket \<longrightarrow>
        (\<exists>keys. map_of (memory_index m) category = Some keys \<and> key \<in> set keys))"

text \<open>
  The keys filed under the long-term category \<^verbatim>\<open>"tasks"\<close> of a graph's memory, in
  insertion order, and the key the pipeline derives from a count.
\<close>

definition tasks_keys :: "SwarmGraph \<Rightarrow> string list" where
  "tasks_keys g =
     (case map_of (long_term (graph_memory g)) ''tasks'' of
        None \<Rightarrow> [] | Some b \<Rightarrow> map fst b)"

definition task_key :: "nat \<Rightarrow> string" where
  "task_key i = ''task_'' @ str_nat i"

definition numbered :: "string list \<Rightarrow> bool" where
  "numbered ks = (ks = map task_key [0..<length ks])"

text \<open>Reading a decimal numeral back, to show that \<open>str_nat\<close> is injective.\<close>

definition nat_of_str :: "string \<Rightarrow> nat" where
  "nat_of_str s = foldl (\<lambda>a c. 10 * a + (of_char c - 48)) 0 s"

section \<open>Example inputs\<close>

text \<open>A clock that advances one second per reading, and two agent configurations.\<close>

definition demo_clock :: clock where
  "demo_clock n = real n"

definition researcher_cfg :: AgentConfig where
  "researcher_cfg = \<lparr>name = ''alice'', role = Some RESEARCHER, tools = None,
     memory_enabled = True, max_iterations = 5, timeout = 30\<rparr>"

definition broken_cfg :: AgentConfig where
  "broken_cfg = \<lparr>name = ''bob'', role = None, tools = None,
     memory_enabled = True, max_iterations = 5, timeout = 30\<rparr>"

definition carol_cfg :: AgentConfig where
  "carol_cfg = \<lparr>name = ''carol'', role = Some ANALYZER, tools = None,
     memory_enabled = True, max_iterations = 5, timeout = 30\<rparr>"

definition unnamed_cfg :: AgentConfig where
  "unnamed_cfg = \<lparr>name = [], role = Some EXECUTOR, tools = None,
     memory_enabled = True, max_iterations = 5, timeout = 30\<rparr>"

definition demo_pool :: AgentPool where
  "demo_pool = add_agent carol_cfg (add_agent broken_cfg (add_agent researcher_cfg AgentPool_init))"

definition ok_pool :: AgentPool where
  "ok_pool = add_agent carol_cfg (add_agent researcher_cfg AgentPool_init)"

definition unnamed_pool :: AgentPool where
  "unnamed_pool = add_agent unnamed_cfg (add_agent researcher_cfg AgentPool_init)"

definition none_msg :: string where
  "none_msg = [CHR 0x27] @ ''NoneType'' @ [CHR 0x27] @ '' object has no attribute ''
                  @ [CHR 0x27] @ ''value'' @ [CHR 0x27]"

definition demo_orch :: SwarmOrchestrator where
  "demo_orch = \<lparr>agent_pools = [(''research'', ok_pool)], task_queue = [],
     execution_history = []\<rparr>"

definition a_cfg :: AgentConfig where
  "a_cfg = \<lparr>name = ''A'', role = Some RESEARCHER, tools = None,
     memory_enabled = True, max_iterations = 5, timeout = 30\<rparr>"

definition b_cfg :: AgentConfig where
  "b_cfg = \<lparr>name = ''B'', role = Some COORDINATOR, tools = None,
     memory_enabled = True, max_iterations = 5, timeout = 30\<rparr>"

definition c_cfg :: AgentConfig where
  "c_cfg = \<lparr>name = ''C'', role = Some SYNTHESIZER, tools = None,
     memory_enabled = True, max_iterations = 5, timeout = 30\<rparr>"

definition abc_pool :: AgentPool where
  "abc_pool = add_agent c_cfg (add_agent b_cfg (add_agent a_cfg AgentPool_init))"

text \<open>A sequence of memory operations that stores the same key twice.\<close>

definition demo_ops :: "memory_op list" where
  "demo_ops = [Store_long_term ''k'' (PInt 1) ''c'',
               Store_short_term ''s'' (PInt 0) PNone,
               Store_long_term ''k'' (PInt 2) ''c'',
               Clear_short_term]"

section \<open>Agent.execute: one log entry, and the state on return\<close>

lemma Agent_execute_Inr:
  "placeholder (config a) task = Inr r \<Longrightarrow>
   Agent_execute clk task (a, t) =
     (Inr r,
      a\<lparr>state := ''idle'',
        execution_log := execution_log a @
          [[(''task'', PStr task), (''result'', PStr r),
            (''duration'', PFloat (clk (t + 1) - clk t)),
            (''status'', PStr ''completed''),
            (''timestamp'', PStamp (clk (t + 2)))]]\<rparr>,
      t + 3)"
  by (simp add: Agent_execute_def Let_def)

lemma Agent_execute_Inl:
  "placeholder (config a) task = Inl e \<Longrightarrow>
   Agent_execute clk task (a, t) =
     (Inl e,
      a\<lparr>state := ''error'',
        execution_log := execution_log a @
          [[(''task'', PStr task), (''error'', PStr (str_exn e)),
            (''duration'', PFloat (clk (t + 1) - clk t)),
            (''status'', PStr ''failed''),
            (''timestamp'', PStamp (clk (t + 2)))]]\<rparr>,
      t + 3)"
  by (simp add: Agent_execute_def Let_def)

text \<open>
  C1. For every task string, a call to \<^verbatim>\<open>Agent.execute\<close> appends exactly one entry to
  the agent's \<^verbatim>\<open>execution_log\<close>, an entry with a \<^verbatim>\<open>duration\<close> and a \<^verbatim>\<open>status\<close> field,
  and on return the agent's state is \<^verbatim>\<open>"idle"\<close> if the call returned a result and
  \<^verbatim>\<open>"error"\<close> if it raised.
\<close>

theorem Agent_execute_log_and_state:
  assumes "Agent_execute clk task (a, t) = (res, a', t')"
  shows "(\<exists>entry d s. execution_log a' = execution_log a @ [entry]
            \<and> map_of entry ''duration'' = Some (PFloat d)
            \<and> map_of entry ''status'' = Some (PStr s))
         \<and> ((\<exists>r. res = Inr r) \<longrightarrow> state a' = ''idle'')
         \<and> ((\<exists>e. res = Inl e) \<longrightarrow> state a' = ''error'')"
proof (cases "placeholder (config a) task")
  case (Inl e)
  from Agent_execute_Inl [OF Inl, of clk t] assms show ?thesis by auto
next
  case (Inr r)
  from Agent_execute_Inr [OF Inr, of clk t] assms show ?thesis by auto
qed

theorem Agent_execute_log_and_state_witness:
  "Agent_execute demo_clock ''demo task'' (Agent_init researcher_cfg, 0) =
     (Inr ''Agent alice (researcher) processed: demo task'',
      \<lparr>config = researcher_cfg,
       execution_log = [[(''task'', PStr ''demo task''),
         (''result'', PStr ''Agent alice (researcher) processed: demo task''),
         (''duration'', PFloat 1), (''status'', PStr ''completed''),
         (''timestamp'', PStamp 2)]],
       memory = [], state = ''idle''\<rparr>, 3)
   \<and> fst (Agent_execute demo_clock ''demo task'' (Agent_init broken_cfg, 0)) =
       Inl (AttributeError (CHR 0x27 # ''NoneType'' @ CHR 0x27 # '' object has no attribute ''
              @ CHR 0x27 # ''value'' @ [CHR 0x27]))
   \<and> length (execution_log (fst (snd
         (Agent_execute demo_clock ''demo task'' (Agent_init broken_cfg, 0))))) = 1
   \<and> state (fst (snd (Agent_execute demo_clock ''demo task'' (Agent_init broken_cfg, 0))))
       = ''error''"
proof -
  let ?ok = "Agent_execute demo_clock ''demo task'' (Agent_init researcher_cfg, 0)"
  let ?bad = "Agent_execute demo_clock ''demo task'' (Agent_init broken_cfg, 0)"
  have ok: "?ok = (fst ?ok, fst (snd ?ok), snd (snd ?ok))" by simp
  have bad: "?bad = (fst ?bad, fst (snd ?bad), snd (snd ?bad))" by simp
  have r1: "?ok = (Inr ''Agent alice (researcher) processed: demo task'',
      \<lparr>config = researcher_cfg,
       execution_log = [[(''task'', PStr ''demo task''),
         (''result'', PStr ''Agent alice (researcher) processed: demo task''),
         (''duration'', PFloat 1), (''status'', PStr ''completed''),
         (''timestamp'', PStamp 2)]],
       memory = [], state = ''idle''\<rparr>, 3)"
    by (simp add: Agent_execute_def placeholder_def Agent_init_def researcher_cfg_def
        demo_clock_def Let_def)
  have r2: "fst ?bad = Inl (AttributeError (CHR 0x27 # ''NoneType'' @ CHR 0x27 #
       '' object has no attribute '' @ CHR 0x27 # ''value'' @ [CHR 0x27]))"
    by (simp add: Agent_execute_def placeholder_def Agent_init_def broken_cfg_def Let_def)
  from Agent_execute_log_and_state [OF bad] r2
  have "length (execution_log (fst (snd ?bad))) = 1 \<and> state (fst (snd ?bad)) = ''error''"
    by (auto simp: Agent_init_def)
  with Agent_execute_log_and_state [OF ok] r1 r2 show ?thesis by simp
qed

text \<open>
  C9. For every agent whose \<^verbatim>\<open>execution_log\<close> is empty, \<^verbatim>\<open>get_execution_stats\<close> returns
  (it does not raise) and its average-duration statistic is 0: the division by the
  length of the log is not evaluated.
\<close>

theorem get_execution_stats_empty_log:
  assumes "execution_log a = []"
  shows "get_execution_stats a =
           Inr [(''agent_name'', PStr (name (config a))),
                (''total_executions'', PInt 0),
                (''successful'', PInt 0),
                (''failed'', PInt 0),
                (''total_duration'', PInt 0),
                (''avg_duration'', PInt 0)]"
  using assms by (simp add: get_execution_stats_def)

theorem get_execution_stats_empty_log_witness:
  "execution_log (Agent_init researcher_cfg) = []
   \<and> map_of (projr (get_execution_stats (Agent_init researcher_cfg))) ''avg_duration''
       = Some (PInt 0)"
proof -
  have h: "execution_log (Agent_init researcher_cfg) = []" by (simp add: Agent_init_def)
  from get_execution_stats_empty_log [OF h] h show ?thesis by simp
qed

section \<open>The pool: results of the three execution modes\<close>

text \<open>
  The pool's dictionary keeps its names distinct: this holds for the empty pool and is
  kept by \<^verbatim>\<open>add_agent\<close> and \<^verbatim>\<open>remove_agent\<close>. The theorems below assume it of the pool
  they start from.
\<close>

lemma AgentPool_init_distinct: "distinct (map fst (agents AgentPool_init))"
  by (simp add: AgentPool_init_def)

lemma add_agent_distinct:
  "distinct (map fst (agents p)) \<Longrightarrow> distinct (map fst (agents (add_agent cfg p)))"
  by (simp add: add_agent_def distinct_update)

lemma remove_agent_distinct:
  "distinct (map fst (agents p)) \<Longrightarrow> distinct (map fst (agents (remove_agent n p)))"
  by (simp add: remove_agent_def distinct_delete)

text \<open>
  What a call of \<^verbatim>\<open>Agent.execute\<close> returns depends on the agent's configuration and the
  task only, not on the clock or on the agent's log; each call reads the clock three
  times and leaves the configuration as it is.
\<close>

lemma update_fresh: "k \<notin> fst ` set al \<Longrightarrow> AList.update k v al = al @ [(k, v)]"
  by (induction al) auto

lemma Agent_execute_fst: "fst (Agent_execute clk task (a, t)) = placeholder (config a) task"
  by (cases "placeholder (config a) task") (simp_all add: Agent_execute_def Let_def)

lemma Agent_execute_tick: "snd (snd (Agent_execute clk task (a, t))) = t + 3"
  by (cases "placeholder (config a) task") (simp_all add: Agent_execute_def Let_def)

lemma Agent_execute_config: "config (fst (snd (Agent_execute clk task (a, t)))) = config a"
  by (cases "placeholder (config a) task") (simp_all add: Agent_execute_def Let_def)

lemma Agent_execute_eqD:
  "Agent_execute clk task (a, t) = (res, a', t') \<Longrightarrow>
   res = placeholder (config a) task \<and> config a' = config a \<and> t' = t + 3"
  using Agent_execute_fst [of clk task a t] Agent_execute_tick [of clk task a t]
    Agent_execute_config [of clk task a t] by simp

text \<open>
  The sequential loop writes, for each agent in turn, the entry of that agent's
  response; \<^verbatim>\<open>gather\<close> returns the same responses in the same order. With distinct
  names every \<^verbatim>\<open>results[agent_name] = ...\<close> adds a new key, so the results are the list
  of the agents' entries.
\<close>

lemma sequential_loop_results:
  "sequential_loop clk task ags (res, t) = (ags', res', t') \<Longrightarrow>
   res' = collect (map (\<lambda>(n, a). (n, placeholder (config a) task)) ags) res
   \<and> map fst ags' = map fst ags"
proof (induction ags arbitrary: res t ags' res' t')
  case Nil
  then show ?case by simp
next
  case (Cons x ags)
  obtain n a where x: "x = (n, a)" by (cases x)
  obtain r a1 t1 where ex: "Agent_execute clk task (a, t) = (r, a1, t1)"
    by (cases "Agent_execute clk task (a, t)")
  from Agent_execute_eqD [OF ex] have r: "r = placeholder (config a) task" by simp
  show ?case
  proof (cases r)
    case (Inl e)
    obtain ags2 res2 t2 where rec:
      "sequential_loop clk task ags (AList.update n (failed_entry e) res, t1) = (ags2, res2, t2)"
      by (cases "sequential_loop clk task ags (AList.update n (failed_entry e) res, t1)")
    from Cons.IH [OF rec] Cons.prems x ex Inl rec r show ?thesis by auto
  next
    case (Inr s)
    obtain ags2 res2 t2 where rec:
      "sequential_loop clk task ags (AList.update n (success_entry s) res, t1) = (ags2, res2, t2)"
      by (cases "sequential_loop clk task ags (AList.update n (success_entry s) res, t1)")
    from Cons.IH [OF rec] Cons.prems x ex Inr rec r show ?thesis by auto
  qed
qed

lemma gather_responses:
  "gather clk task ags t = (rs, ags', t') \<Longrightarrow>
   rs = map (\<lambda>a. placeholder (config a) task) ags \<and> length ags' = length ags
   \<and> map config ags' = map config ags"
proof (induction ags arbitrary: t rs ags' t')
  case Nil
  then show ?case by simp
next
  case (Cons a ags)
  obtain r a1 t1 where ex: "Agent_execute clk task (a, t) = (r, a1, t1)"
    by (cases "Agent_execute clk task (a, t)")
  obtain rs2 ags2 t2 where rec: "gather clk task ags t1 = (rs2, ags2, t2)"
    by (cases "gather clk task ags t1")
  from Cons.IH [OF rec] Agent_execute_eqD [OF ex] Cons.prems ex rec show ?case by auto
qed

lemma collect_distinct:
  "distinct (map fst kvs) \<Longrightarrow> fst ` set kvs \<inter> fst ` set res = {} \<Longrightarrow>
   collect kvs res =
     res @ map (\<lambda>(n, r). (n, case r of Inl e \<Rightarrow> failed_entry e | Inr s \<Rightarrow> success_entry s)) kvs"
proof (induction kvs arbitrary: res)
  case Nil
  then show ?case by simp
next
  case (Cons kv kvs)
  obtain n r where kv: "kv = (n, r)" by (cases kv)
  let ?v = "case r of Inl e \<Rightarrow> failed_entry e | Inr s \<Rightarrow> success_entry s"
  from Cons.prems kv have fresh: "n \<notin> fst ` set res" by auto
  have upd: "AList.update n ?v res = res @ [(n, ?v)]" by (rule update_fresh [OF fresh])
  from Cons.prems kv have d: "distinct (map fst kvs)"
    and disj: "fst ` set kvs \<inter> fst ` set (res @ [(n, ?v)]) = {}" by auto
  from Cons.IH [OF d disj] kv upd show ?case by simp
qed

lemma zip_names_responses:
  "zip (map fst ags) (map (\<lambda>a. placeholder (config a) task) (map snd ags)) =
   map (\<lambda>(n, a). (n, placeholder (config a) task)) ags"
  by (induction ags) auto

lemma collect_pool:
  "distinct (map fst ags) \<Longrightarrow>
   collect (map (\<lambda>(n, a). (n, placeholder (config a) task)) ags) [] =
   map (\<lambda>(n, a). (n, entry_of (config a) task)) ags"
proof -
  assume d: "distinct (map fst ags)"
  have m: "map fst (map (\<lambda>(n, a). (n, placeholder (config a) task)) ags) = map fst ags"
    by (induction ags) auto
  from d have "distinct (map fst (map (\<lambda>(n, a). (n, placeholder (config a) task)) ags))"
    unfolding m .
  from collect_distinct [OF this, of "[]"] show ?thesis
    by (simp add: entry_of_def case_prod_unfold)
qed

lemma execute_sequential_results:
  "distinct (map fst (agents p)) \<Longrightarrow>
   fst (execute_sequential clk task (p, t)) =
     map (\<lambda>(n, a). (n, entry_of (config a) task)) (agents p)"
proof -
  assume d: "distinct (map fst (agents p))"
  obtain ags res t' where l: "sequential_loop clk task (agents p) ([], t) = (ags, res, t')"
    by (cases "sequential_loop clk task (agents p) ([], t)")
  from sequential_loop_results [OF l] collect_pool [OF d, of task] l show ?thesis
    by (simp add: execute_sequential_def)
qed

lemma execute_parallel_results:
  "distinct (map fst (agents p)) \<Longrightarrow>
   fst (execute_parallel clk task (p, t)) =
     map (\<lambda>(n, a). (n, entry_of (config a) task)) (agents p)"
proof -
  assume d: "distinct (map fst (agents p))"
  obtain rs ags t' where g: "gather clk task (map snd (agents p)) t = (rs, ags, t')"
    by (cases "gather clk task (map snd (agents p)) t")
  from gather_responses [OF g] collect_pool [OF d, of task] g
    zip_names_responses [of "agents p" task] show ?thesis
    by (cases "agents p = []") (simp_all add: execute_parallel_def Let_def)
qed

lemma map_of_entries:
  "distinct (map fst ags) \<Longrightarrow> (n, a) \<in> set ags \<Longrightarrow>
   map_of (map (\<lambda>(n, a). (n, f a)) ags) n = Some (f a)"
  by (induction ags) (auto simp: rev_image_eqI)

text \<open>
  Hierarchical mode: the coordinator's section, then the entries of all agents whose name
  differs from the coordinator's.
\<close>

lemma filter_update_other:
  "filter (\<lambda>(n, a). n \<noteq> c) (AList.update c v al) = filter (\<lambda>(n, a). n \<noteq> c) al"
  by (induction al) auto

lemma workers_results:
  assumes d: "distinct (map fst ws)" and g: "gather clk task (map snd ws) t = (rs, ws', t')"
  shows "collect (zip (map fst ws) rs) [] = map (\<lambda>(n, a). (n, entry_of (config a) task)) ws"
  using gather_responses [OF g] collect_pool [OF d, of task] zip_names_responses [of ws task]
  by simp

lemma distinct_filter_fst:
  "distinct (map fst al) \<Longrightarrow> distinct (map fst (filter P al))"
  by (induction al) (auto simp: rev_image_eqI)

lemma coordinator_phase_member:
  assumes look: "map_of ags c = Some a" and c: "c \<noteq> []"
  shows "\<exists>a1. coordinator_phase clk task (Some c) (ags, t) =
     ([(''coordinator'',
        case placeholder (config a) (''Coordinate: '' @ task) of
          Inr r \<Rightarrow> PDict [(''agent'', PStr c), (''result'', PStr r)]
        | Inl e \<Rightarrow> PDict [(''error'', PStr (str_exn e))])],
      AList.update c a1 ags, t + 3)"
proof -
  obtain r a1 t1 where ex: "Agent_execute clk (''Coordinate: '' @ task) (a, t) = (r, a1, t1)"
    by (cases "Agent_execute clk (''Coordinate: '' @ task) (a, t)")
  from Agent_execute_eqD [OF ex]
  have r: "r = placeholder (config a) (''Coordinate: '' @ task)" and t1: "t1 = t + 3"
    by simp_all
  show ?thesis
  proof (cases r)
    case (Inl e)
    with r have ph: "placeholder (config a) (''Coordinate: '' @ task) = Inl e" by simp
    from ex Inl t1 have ex': "Agent_execute clk (''Coordinate: '' @ task) (a, t) = (Inl e, a1, t + 3)"
      by simp
    from c look ex' ph show ?thesis by (auto simp add: coordinator_phase_def)
  next
    case (Inr s)
    with r have ph: "placeholder (config a) (''Coordinate: '' @ task) = Inr s" by simp
    from ex Inr t1 have ex': "Agent_execute clk (''Coordinate: '' @ task) (a, t) = (Inr s, a1, t + 3)"
      by simp
    from c look ex' ph show ?thesis by (auto simp add: coordinator_phase_def)
  qed
qed

lemma worker_phase_results:
  assumes d: "distinct (map fst ags)"
  shows "fst (worker_phase clk task coordinator (res, ags, t)) =
     (if filter (\<lambda>(n, a). Some n \<noteq> coordinator) ags = [] then res
      else AList.update ''workers''
             (PDict (map (\<lambda>(n, a). (n, entry_of (config a) task))
                (filter (\<lambda>(n, a). Some n \<noteq> coordinator) ags))) res)"
proof -
  let ?ws = "filter (\<lambda>(n, a). Some n \<noteq> coordinator) ags"
  obtain rs ws' t2 where g: "gather clk task (map snd ?ws) t = (rs, ws', t2)"
    by (cases "gather clk task (map snd ?ws) t")
  have dw: "distinct (map fst ?ws)" by (rule distinct_filter_fst [OF d])
  from workers_results [OF dw g] g show ?thesis
    by (simp add: worker_phase_def Let_def)
qed

lemma distinct_update_fst:
  "distinct (map fst al) \<Longrightarrow> k \<in> fst ` set al \<Longrightarrow> map fst (AList.update k v al) = map fst al"
  by (induction al) auto

lemma hier_member:
  assumes d: "distinct (map fst (agents p))" and c: "c \<noteq> []" and m: "(c, a) \<in> set (agents p)"
  shows "fst (execute_hierarchical clk task (Some c) (p, t)) =
     (''coordinator'',
        case placeholder (config a) (''Coordinate: '' @ task) of
          Inr r \<Rightarrow> PDict [(''agent'', PStr c), (''result'', PStr r)]
        | Inl e \<Rightarrow> PDict [(''error'', PStr (str_exn e))])
     # (if filter (\<lambda>(n, a). n \<noteq> c) (agents p) = [] then []
        else [(''workers'', PDict (map (\<lambda>(n, a). (n, entry_of (config a) task))
                 (filter (\<lambda>(n, a). n \<noteq> c) (agents p))))])"
proof -
  from d m have look: "map_of (agents p) c = Some a" by simp
  from coordinator_phase_member [OF look c, of clk task t]
  obtain a1 where cp: "coordinator_phase clk task (Some c) (agents p, t) =
     ([(''coordinator'',
        case placeholder (config a) (''Coordinate: '' @ task) of
          Inr r \<Rightarrow> PDict [(''agent'', PStr c), (''result'', PStr r)]
        | Inl e \<Rightarrow> PDict [(''error'', PStr (str_exn e))])],
      AList.update c a1 (agents p), t + 3)" by blast
  from m have "c \<in> fst ` set (agents p)" by (simp add: rev_image_eqI)
  with d have d1: "distinct (map fst (AList.update c a1 (agents p)))"
    by (simp add: distinct_update_fst)
  have wp: "fst (worker_phase clk task (Some c)
      (coordinator_phase clk task (Some c) (agents p, t))) =
     (''coordinator'',
        case placeholder (config a) (''Coordinate: '' @ task) of
          Inr r \<Rightarrow> PDict [(''agent'', PStr c), (''result'', PStr r)]
        | Inl e \<Rightarrow> PDict [(''error'', PStr (str_exn e))])
     # (if filter (\<lambda>(n, a). n \<noteq> c) (agents p) = [] then []
        else [(''workers'', PDict (map (\<lambda>(n, a). (n, entry_of (config a) task))
                 (filter (\<lambda>(n, a). n \<noteq> c) (agents p))))])"
    unfolding cp worker_phase_results [OF d1]
    by (simp add: filter_update_other)
  have "fst (execute_hierarchical clk task (Some c) (p, t)) =
        fst (worker_phase clk task (Some c) (coordinator_phase clk task (Some c) (agents p, t)))"
    using c by (simp add: execute_hierarchical_def truthy_def Let_def split: prod.splits)
  with wp show ?thesis by simp
qed

lemma filter_all: "c \<notin> fst ` set al \<Longrightarrow> filter (\<lambda>(n, a). n \<noteq> c) al = al"
  by (induction al) auto

lemma hier_stranger:
  assumes d: "distinct (map fst (agents p))" and c: "c \<noteq> []"
    and m: "c \<notin> fst ` set (agents p)" and ne: "agents p \<noteq> []"
  shows "fst (execute_hierarchical clk task (Some c) (p, t)) =
     [(''workers'', PDict (map (\<lambda>(n, a). (n, entry_of (config a) task)) (agents p)))]"
proof -
  from m have look: "map_of (agents p) c = None" by (simp add: map_of_eq_None_iff)
  have f: "filter (\<lambda>(n, a). n \<noteq> c) (agents p) = agents p" by (rule filter_all [OF m])
  from look c have cp: "coordinator_phase clk task (Some c) (agents p, t) = ([], agents p, t)"
    by (simp add: coordinator_phase_def)
  have "fst (execute_hierarchical clk task (Some c) (p, t)) =
        fst (worker_phase clk task (Some c) (coordinator_phase clk task (Some c) (agents p, t)))"
    using c by (simp add: execute_hierarchical_def truthy_def Let_def split: prod.splits)
  also have "\<dots> = [(''workers'', PDict (map (\<lambda>(n, a). (n, entry_of (config a) task)) (agents p)))]"
    unfolding cp worker_phase_results [OF d] using f ne by simp
  finally show ?thesis .
qed

text \<open>The example pools, and what their agents return.\<close>

lemma agents_demo_pool:
  "agents demo_pool = [(''alice'', Agent_init researcher_cfg), (''bob'', Agent_init broken_cfg),
      (''carol'', Agent_init carol_cfg)]"
  by (simp add: demo_pool_def add_agent_def AgentPool_init_def researcher_cfg_def
      broken_cfg_def carol_cfg_def)

lemma agents_ok_pool:
  "agents ok_pool = [(''alice'', Agent_init researcher_cfg), (''carol'', Agent_init carol_cfg)]"
  by (simp add: ok_pool_def add_agent_def AgentPool_init_def researcher_cfg_def carol_cfg_def)

lemma agents_unnamed_pool:
  "agents unnamed_pool = [(''alice'', Agent_init researcher_cfg), ([], Agent_init unnamed_cfg)]"
  by (simp add: unnamed_pool_def add_agent_def AgentPool_init_def researcher_cfg_def unnamed_cfg_def)

lemma placeholder_examples:
  "placeholder (config (Agent_init researcher_cfg)) task =
     Inr (''Agent alice (researcher) processed: '' @ take 100 task)"
  "placeholder (config (Agent_init carol_cfg)) task =
     Inr (''Agent carol (analyzer) processed: '' @ take 100 task)"
  "placeholder (config (Agent_init broken_cfg)) task = Inl (AttributeError none_msg)"
  "placeholder (config (Agent_init unnamed_cfg)) task =
     Inr (''Agent  (executor) processed: '' @ take 100 task)"
  by (simp_all add: placeholder_def Agent_init_def researcher_cfg_def carol_cfg_def
      broken_cfg_def unnamed_cfg_def none_msg_def)

text \<open>\<^verbatim>\<open>AgentPool.execute\<close> by mode: the final \<^verbatim>\<open>raise\<close> is never reached.\<close>

lemma AgentPool_execute_cases:
  "AgentPool_execute clk task (p, t) =
     (case execution_mode p of
        SEQUENTIAL \<Rightarrow> (Inr (fst (execute_sequential clk task (p, t))),
                       snd (execute_sequential clk task (p, t)))
      | PARALLEL \<Rightarrow> (Inr (fst (execute_parallel clk task (p, t))),
                     snd (execute_parallel clk task (p, t)))
      | HIERARCHICAL \<Rightarrow> (Inr (fst (execute_hierarchical clk task None (p, t))),
                         snd (execute_hierarchical clk task None (p, t))))"
  by (cases "execution_mode p") (simp_all add: AgentPool_execute_def split: prod.splits)


text \<open>
  C2. For every pool and every task, \<^verbatim>\<open>AgentPool.execute\<close> in sequential and in
  parallel mode returns a result mapping whose keys are exactly the agent names of the
  pool. The entry of each agent is determined by what that agent's own
  \<^verbatim>\<open>execute\<close> call returns: \<^verbatim>\<open>{status: failed, error}\<close> when it raises,
  \<^verbatim>\<open>{status: success, result}\<close> otherwise. So a failing agent neither stops the loop
  nor changes the entry of another agent. (The names of a dictionary are distinct.)
\<close>

theorem AgentPool_execute_isolates_failure:
  assumes d: "distinct (map fst (agents p))"
    and m: "execution_mode p = SEQUENTIAL \<or> execution_mode p = PARALLEL"
  shows "\<exists>results p' t'.
           AgentPool_execute clk task (p, t) = (Inr results, p', t')
         \<and> map fst results = map fst (agents p)
         \<and> (\<forall>(n, a) \<in> set (agents p). \<forall>u.
               map_of results n =
                 Some (case fst (Agent_execute clk task (a, u)) of
                         Inl e \<Rightarrow> PDict [(''status'', PStr ''failed''),
                                         (''error'', PStr (str_exn e))]
                       | Inr r \<Rightarrow> PDict [(''status'', PStr ''success''),
                                         (''result'', PStr r)]))"
proof -
  let ?res = "map (\<lambda>(n, a). (n, entry_of (config a) task)) (agents p)"
  from m have "fst (AgentPool_execute clk task (p, t)) = Inr ?res"
    using execute_sequential_results [OF d, of clk task t]
      execute_parallel_results [OF d, of clk task t]
    by (auto simp: AgentPool_execute_cases)
  then have ex: "AgentPool_execute clk task (p, t) =
       (Inr ?res, fst (snd (AgentPool_execute clk task (p, t))),
        snd (snd (AgentPool_execute clk task (p, t))))"
    by (metis prod.collapse)
  have keys: "map fst ?res = map fst (agents p)" by (induction "agents p") auto
  have entries: "\<forall>(n, a) \<in> set (agents p). \<forall>u. map_of ?res n =
       Some (case fst (Agent_execute clk task (a, u)) of
               Inl e \<Rightarrow> PDict [(''status'', PStr ''failed''), (''error'', PStr (str_exn e))]
             | Inr r \<Rightarrow> PDict [(''status'', PStr ''success''), (''result'', PStr r)])"
    using map_of_entries [OF d, of _ _ "\<lambda>a. entry_of (config a) task"]
    by (auto simp: Agent_execute_fst entry_of_def failed_entry_def success_entry_def
        split: sum.splits)
  from ex keys entries show ?thesis by blast
qed

theorem AgentPool_execute_isolates_failure_witness:
  "distinct (map fst (agents demo_pool))
   \<and> execution_mode demo_pool = SEQUENTIAL
   \<and> fst (AgentPool_execute demo_clock ''demo task'' (demo_pool, 0)) =
       Inr [(''alice'', PDict [(''status'', PStr ''success''),
               (''result'', PStr ''Agent alice (researcher) processed: demo task'')]),
            (''bob'', PDict [(''status'', PStr ''failed''), (''error'', PStr none_msg)]),
            (''carol'', PDict [(''status'', PStr ''success''),
               (''result'', PStr ''Agent carol (analyzer) processed: demo task'')])]
   \<and> execution_mode (set_execution_mode PARALLEL demo_pool) = PARALLEL
   \<and> fst (AgentPool_execute demo_clock ''demo task''
            (set_execution_mode PARALLEL demo_pool, 0)) =
       fst (AgentPool_execute demo_clock ''demo task'' (demo_pool, 0))"
proof -
  let ?par = "set_execution_mode PARALLEL demo_pool"
  have ags: "agents ?par = agents demo_pool" by (simp add: set_execution_mode_def)
  have d: "distinct (map fst (agents demo_pool))" by (simp add: agents_demo_pool)
  then have d': "distinct (map fst (agents ?par))" by (simp add: ags)
  have m: "execution_mode demo_pool = SEQUENTIAL"
    by (simp add: demo_pool_def add_agent_def AgentPool_init_def)
  have m': "execution_mode ?par = PARALLEL" by (simp add: set_execution_mode_def)
  have ex: "fst (Agent_execute demo_clock ''demo task'' (Agent_init researcher_cfg, 0)) =
        Inr ''Agent alice (researcher) processed: demo task''"
      "fst (Agent_execute demo_clock ''demo task'' (Agent_init broken_cfg, 0)) =
        Inl (AttributeError none_msg)"
      "fst (Agent_execute demo_clock ''demo task'' (Agent_init carol_cfg, 0)) =
        Inr ''Agent carol (analyzer) processed: demo task''"
    by (simp_all add: Agent_execute_fst placeholder_examples)
  from AgentPool_execute_isolates_failure [OF d, of demo_clock "''demo task''" 0] m
  obtain rs p1 t1 where
    s1: "AgentPool_execute demo_clock ''demo task'' (demo_pool, 0) = (Inr rs, p1, t1)"
    and s2: "map fst rs = [''alice'', ''bob'', ''carol'']"
    and s3: "\<forall>(n, a) \<in> set (agents demo_pool). \<forall>u. map_of rs n =
       Some (case fst (Agent_execute demo_clock ''demo task'' (a, u)) of
               Inl e \<Rightarrow> PDict [(''status'', PStr ''failed''), (''error'', PStr (str_exn e))]
             | Inr r \<Rightarrow> PDict [(''status'', PStr ''success''), (''result'', PStr r)])"
    by (auto simp: agents_demo_pool)
  from AgentPool_execute_isolates_failure [OF d', of demo_clock "''demo task''" 0] m'
  obtain rp p2 t2 where
    p1: "AgentPool_execute demo_clock ''demo task'' (?par, 0) = (Inr rp, p2, t2)"
    and p2: "map fst rp = [''alice'', ''bob'', ''carol'']"
    and p3: "\<forall>(n, a) \<in> set (agents demo_pool). \<forall>u. map_of rp n =
       Some (case fst (Agent_execute demo_clock ''demo task'' (a, u)) of
               Inl e \<Rightarrow> PDict [(''status'', PStr ''failed''), (''error'', PStr (str_exn e))]
             | Inr r \<Rightarrow> PDict [(''status'', PStr ''success''), (''result'', PStr r)])"
    by (auto simp: ags agents_demo_pool)
  have three: "\<And>xs :: (string \<times> pyval) list. map fst xs = [''alice'', ''bob'', ''carol''] \<Longrightarrow>
      xs = [(''alice'', the (map_of xs ''alice'')), (''bob'', the (map_of xs ''bob'')),
            (''carol'', the (map_of xs ''carol''))]"
    by (auto simp: map_eq_Cons_conv)
  from s3 have "map_of rs ''alice'' = Some (PDict [(''status'', PStr ''success''),
               (''result'', PStr ''Agent alice (researcher) processed: demo task'')])"
     "map_of rs ''bob'' = Some (PDict [(''status'', PStr ''failed''), (''error'', PStr none_msg)])"
     "map_of rs ''carol'' = Some (PDict [(''status'', PStr ''success''),
               (''result'', PStr ''Agent carol (analyzer) processed: demo task'')])"
    using ex by (auto simp: agents_demo_pool Agent_execute_fst placeholder_examples)
  with three [OF s2] have rs: "rs = [(''alice'', PDict [(''status'', PStr ''success''),
               (''result'', PStr ''Agent alice (researcher) processed: demo task'')]),
            (''bob'', PDict [(''status'', PStr ''failed''), (''error'', PStr none_msg)]),
            (''carol'', PDict [(''status'', PStr ''success''),
               (''result'', PStr ''Agent carol (analyzer) processed: demo task'')])]"
    by simp
  from p3 have "map_of rp ''alice'' = Some (PDict [(''status'', PStr ''success''),
               (''result'', PStr ''Agent alice (researcher) processed: demo task'')])"
     "map_of rp ''bob'' = Some (PDict [(''status'', PStr ''failed''), (''error'', PStr none_msg)])"
     "map_of rp ''carol'' = Some (PDict [(''status'', PStr ''success''),
               (''result'', PStr ''Agent carol (analyzer) processed: demo task'')])"
    using ex by (auto simp: agents_demo_pool Agent_execute_fst placeholder_examples)
  with three [OF p2] have rp: "rp = rs" unfolding rs by simp
  from d m m' s1 p1 rs rp show ?thesis by simp
qed

section \<open>Sequential and parallel execution return the same results\<close>

lemma sequential_parallel_equal:
  "fst (execute_sequential clk task (p, t)) = fst (execute_parallel clk' task (p, t'))"
proof -
  obtain ags res u where l: "sequential_loop clk task (agents p) ([], t) = (ags, res, u)"
    by (cases "sequential_loop clk task (agents p) ([], t)")
  obtain rs ags' u' where g: "gather clk' task (map snd (agents p)) t' = (rs, ags', u')"
    by (cases "gather clk' task (map snd (agents p)) t'")
  from sequential_loop_results [OF l] gather_responses [OF g] l g
    zip_names_responses [of "agents p" task] show ?thesis
    by (cases "agents p = []") (simp_all add: execute_sequential_def execute_parallel_def Let_def)
qed

text \<open>
  C3. For every pool whose agents all succeed and every task, \<^verbatim>\<open>execute_sequential\<close>
  and \<^verbatim>\<open>execute_parallel\<close>, applied to the same pool state and the same task, return
  the same result mapping: the keys are the agent names of the pool, and every entry
  holds the result of that agent's own call. (The names of a dictionary are distinct.)
\<close>

theorem sequential_parallel_same_results:
  assumes d: "distinct (map fst (agents p))"
    and ok: "\<forall>(n, a) \<in> set (agents p). \<exists>r. fst (Agent_execute clk task (a, t)) = Inr r"
  shows "fst (execute_sequential clk task (p, t)) = fst (execute_parallel clk task (p, t))
       \<and> map fst (fst (execute_sequential clk task (p, t))) = map fst (agents p)
       \<and> (\<forall>(n, a) \<in> set (agents p). \<exists>r.
             fst (Agent_execute clk task (a, t)) = Inr r
           \<and> map_of (fst (execute_sequential clk task (p, t))) n =
               Some (PDict [(''status'', PStr ''success''), (''result'', PStr r)]))"
proof -
  let ?res = "map (\<lambda>(n, a). (n, entry_of (config a) task)) (agents p)"
  have s: "fst (execute_sequential clk task (p, t)) = ?res"
    by (rule execute_sequential_results [OF d])
  have keys: "map fst ?res = map fst (agents p)" by (induction "agents p") auto
  have "\<exists>r. fst (Agent_execute clk task (a, t)) = Inr r
           \<and> map_of ?res n = Some (PDict [(''status'', PStr ''success''), (''result'', PStr r)])"
    if na: "(n, a) \<in> set (agents p)" for n a
  proof -
    from ok na obtain r where r: "fst (Agent_execute clk task (a, t)) = Inr r" by auto
    then have "entry_of (config a) task = PDict [(''status'', PStr ''success''), (''result'', PStr r)]"
      by (simp add: Agent_execute_fst entry_of_def success_entry_def)
    with map_of_entries [OF d na, of "\<lambda>a. entry_of (config a) task"] r show ?thesis by simp
  qed
  with s keys sequential_parallel_equal [of clk task p t clk t] show ?thesis by auto
qed

theorem sequential_parallel_same_results_witness:
  "distinct (map fst (agents ok_pool))
   \<and> fst (execute_sequential demo_clock ''demo task'' (ok_pool, 0)) =
       [(''alice'', PDict [(''status'', PStr ''success''),
               (''result'', PStr ''Agent alice (researcher) processed: demo task'')]),
        (''carol'', PDict [(''status'', PStr ''success''),
               (''result'', PStr ''Agent carol (analyzer) processed: demo task'')])]
   \<and> fst (execute_parallel demo_clock ''demo task'' (ok_pool, 0)) =
       fst (execute_sequential demo_clock ''demo task'' (ok_pool, 0))"
proof -
  have d: "distinct (map fst (agents ok_pool))" by (simp add: agents_ok_pool)
  have ok: "\<forall>(n, a) \<in> set (agents ok_pool).
      \<exists>r. fst (Agent_execute demo_clock ''demo task'' (a, 0)) = Inr r"
    by (simp add: agents_ok_pool Agent_execute_fst placeholder_examples)
  let ?rs = "fst (execute_sequential demo_clock ''demo task'' (ok_pool, 0))"
  note T = sequential_parallel_same_results [OF d ok]
  from T have eq: "?rs = fst (execute_parallel demo_clock ''demo task'' (ok_pool, 0))"
    by (rule conjunct1)
  from T have "map fst ?rs = map fst (agents ok_pool)" by blast
  then have keys: "map fst ?rs = [''alice'', ''carol'']" by (simp add: agents_ok_pool)
  from T have each: "\<forall>(n, a) \<in> set (agents ok_pool). \<exists>r.
             fst (Agent_execute demo_clock ''demo task'' (a, 0)) = Inr r
           \<and> map_of ?rs n = Some (PDict [(''status'', PStr ''success''), (''result'', PStr r)])"
    by blast
  from each have a: "map_of ?rs ''alice'' = Some (PDict [(''status'', PStr ''success''),
               (''result'', PStr ''Agent alice (researcher) processed: demo task'')])"
    by (simp add: agents_ok_pool Agent_execute_fst placeholder_examples)
  from each have c: "map_of ?rs ''carol'' = Some (PDict [(''status'', PStr ''success''),
               (''result'', PStr ''Agent carol (analyzer) processed: demo task'')])"
    by (simp add: agents_ok_pool Agent_execute_fst placeholder_examples)
  have two: "\<And>xs :: (string \<times> pyval) list. map fst xs = [''alice'', ''carol''] \<Longrightarrow>
      xs = [(''alice'', the (map_of xs ''alice'')), (''carol'', the (map_of xs ''carol''))]"
    by (auto simp: map_eq_Cons_conv)
  from two [OF keys] a c have "?rs = [(''alice'', PDict [(''status'', PStr ''success''),
               (''result'', PStr ''Agent alice (researcher) processed: demo task'')]),
        (''carol'', PDict [(''status'', PStr ''success''),
               (''result'', PStr ''Agent carol (analyzer) processed: demo task'')])]"
    by simp
  with d eq show ?thesis by simp
qed

section \<open>The orchestrator: unknown pools and the execution history\<close>

lemma AgentPool_execute_returns:
  "\<exists>result pool' t'. AgentPool_execute clk task (pool, t) = (Inr result, pool', t')"
  by (cases "execution_mode pool") (auto simp: AgentPool_execute_cases)

text \<open>
  C6. For every task, \<^verbatim>\<open>SwarmOrchestrator.execute_task\<close> called with a pool name that is
  not registered fails (the source raises \<^verbatim>\<open>ValueError\<close> with the text
  \<^verbatim>\<open>Pool '...' not found\<close>; this is the specification's \<^verbatim>\<open>NotFoundError\<close>) and leaves
  the orchestrator, so also \<^verbatim>\<open>execution_history\<close>, unchanged. Called with a registered
  pool name, the pool's \<^verbatim>\<open>execute\<close> returns, and \<^verbatim>\<open>execute_task\<close> appends exactly one
  record with the keys pool, task, result, duration and timestamp to
  \<^verbatim>\<open>execution_history\<close> and returns that record.
\<close>

theorem execute_task_history:
  "(get_pool orch pool_name = None \<longrightarrow>
      execute_task clk pool_name task (orch, t) =
        (Inl (ValueError (''Pool '' @ [CHR 0x27] @ pool_name @ [CHR 0x27] @ '' not found'')),
         orch, t))
   \<and> (\<forall>pool. get_pool orch pool_name = Some pool \<longrightarrow>
        (\<exists>result pool' t' duration stamp.
           AgentPool_execute clk task (pool, t + 1) = (Inr result, pool', t')
         \<and> execute_task clk pool_name task (orch, t) =
             (Inr [(''pool'', PStr pool_name), (''task'', PStr task),
                   (''result'', PDict result), (''duration'', PFloat duration),
                   (''timestamp'', PStamp stamp)],
              orch\<lparr>agent_pools := AList.update pool_name pool' (agent_pools orch),
                   execution_history := execution_history orch @
                     [[(''pool'', PStr pool_name), (''task'', PStr task),
                       (''result'', PDict result), (''duration'', PFloat duration),
                       (''timestamp'', PStamp stamp)]]\<rparr>,
              t' + 2)))"
proof (intro conjI impI allI)
  assume "get_pool orch pool_name = None"
  then show "execute_task clk pool_name task (orch, t) =
        (Inl (ValueError (''Pool '' @ [CHR 0x27] @ pool_name @ [CHR 0x27] @ '' not found'')),
         orch, t)"
    by (simp add: execute_task_def)
next
  fix pool
  assume g: "get_pool orch pool_name = Some pool"
  from AgentPool_execute_returns [of clk task pool "t + 1"]
  obtain result pool' t' where
    ex: "AgentPool_execute clk task (pool, t + 1) = (Inr result, pool', t')" by blast
  from g ex have "execute_task clk pool_name task (orch, t) =
             (Inr [(''pool'', PStr pool_name), (''task'', PStr task),
                   (''result'', PDict result), (''duration'', PFloat (clk t' - clk t)),
                   (''timestamp'', PStamp (clk (t' + 1)))],
              orch\<lparr>agent_pools := AList.update pool_name pool' (agent_pools orch),
                   execution_history := execution_history orch @
                     [[(''pool'', PStr pool_name), (''task'', PStr task),
                       (''result'', PDict result), (''duration'', PFloat (clk t' - clk t)),
                       (''timestamp'', PStamp (clk (t' + 1)))]]\<rparr>,
              t' + 2)"
    by (simp add: execute_task_def Let_def)
  with ex show "\<exists>result pool' t' duration stamp.
           AgentPool_execute clk task (pool, t + 1) = (Inr result, pool', t')
         \<and> execute_task clk pool_name task (orch, t) =
             (Inr [(''pool'', PStr pool_name), (''task'', PStr task),
                   (''result'', PDict result), (''duration'', PFloat duration),
                   (''timestamp'', PStamp stamp)],
              orch\<lparr>agent_pools := AList.update pool_name pool' (agent_pools orch),
                   execution_history := execution_history orch @
                     [[(''pool'', PStr pool_name), (''task'', PStr task),
                       (''result'', PDict result), (''duration'', PFloat duration),
                       (''timestamp'', PStamp stamp)]]\<rparr>,
              t' + 2)"
    by blast
qed

theorem execute_task_history_witness:
  "get_pool demo_orch ''missing_pool'' = None
   \<and> execute_task demo_clock ''missing_pool'' ''t'' (demo_orch, 0) =
       (Inl (ValueError (''Pool '' @ [CHR 0x27] @ ''missing_pool'' @ [CHR 0x27] @ '' not found'')),
        demo_orch, 0)
   \<and> get_pool demo_orch ''research'' = Some ok_pool
   \<and> map fst (projr (fst (execute_task demo_clock ''research'' ''t'' (demo_orch, 0)))) =
       [''pool'', ''task'', ''result'', ''duration'', ''timestamp'']
   \<and> execution_history (fst (snd (execute_task demo_clock ''research'' ''t'' (demo_orch, 0)))) =
       [projr (fst (execute_task demo_clock ''research'' ''t'' (demo_orch, 0)))]"
proof -
  have n: "get_pool demo_orch ''missing_pool'' = None"
    by (simp add: get_pool_def demo_orch_def)
  have s: "get_pool demo_orch ''research'' = Some ok_pool"
    by (simp add: get_pool_def demo_orch_def)
  have h: "execution_history demo_orch = []" by (simp add: demo_orch_def)
  note T = execute_task_history [of demo_orch _ demo_clock "''t''" 0]
  from T [of "''missing_pool''"] n
  have a: "execute_task demo_clock ''missing_pool'' ''t'' (demo_orch, 0) =
       (Inl (ValueError (''Pool '' @ [CHR 0x27] @ ''missing_pool'' @ [CHR 0x27] @ '' not found'')),
        demo_orch, 0)" by blast
  from T [of "''research''"] s h
  have b: "map fst (projr (fst (execute_task demo_clock ''research'' ''t'' (demo_orch, 0)))) =
       [''pool'', ''task'', ''result'', ''duration'', ''timestamp'']
   \<and> execution_history (fst (snd (execute_task demo_clock ''research'' ''t'' (demo_orch, 0)))) =
       [projr (fst (execute_task demo_clock ''research'' ''t'' (demo_orch, 0)))]"
    by auto
  from n s a b show ?thesis by simp
qed

section \<open>Hierarchical execution\<close>

lemma keys_filter_other:
  "fst ` set (filter (\<lambda>(n, a). n \<noteq> c) al) = fst ` set al - {c}"
  by (induction al) auto

lemma map_of_workers:
  assumes d: "distinct (map fst al)" and na: "(n, b) \<in> set al" and nc: "n \<noteq> c"
  shows "map_of (map (\<lambda>(n, a). (n, f a)) (filter (\<lambda>(n, a). n \<noteq> c) al)) n = Some (f b)"
proof -
  from na nc have "(n, b) \<in> set (filter (\<lambda>(n, a). n \<noteq> c) al)" by simp
  from map_of_entries [OF distinct_filter_fst [OF d] this] show ?thesis .
qed

lemma agents_abc_pool:
  "agents abc_pool = [(''A'', Agent_init a_cfg), (''B'', Agent_init b_cfg),
      (''C'', Agent_init c_cfg)]"
  by (simp add: abc_pool_def add_agent_def AgentPool_init_def a_cfg_def b_cfg_def c_cfg_def)

lemma placeholder_abc:
  "placeholder (config (Agent_init a_cfg)) task =
     Inr (''Agent A (researcher) processed: '' @ take 100 task)"
  "placeholder (config (Agent_init b_cfg)) task =
     Inr (''Agent B (coordinator) processed: '' @ take 100 task)"
  "placeholder (config (Agent_init c_cfg)) task =
     Inr (''Agent C (synthesizer) processed: '' @ take 100 task)"
  by (simp_all add: placeholder_def Agent_init_def a_cfg_def b_cfg_def c_cfg_def)

lemma hier_default:
  assumes "\<not> truthy coordinator" and "agents p \<noteq> []"
  shows "execute_hierarchical clk task coordinator (p, t) =
         execute_hierarchical clk task (Some (fst (hd (agents p)))) (p, t)"
  using assms by (simp add: execute_hierarchical_def Let_def truthy_def)

text \<open>
  C5 (as amended). For every pool and every explicit, non-empty coordinator name \<open>c\<close>
  that is an agent of the pool, hierarchical execution returns a result whose
  coordinator section is \<^verbatim>\<open>{agent: c, result}\<close> when the coordinator's call succeeds and
  holds the coordinator's error text when it fails, and whose workers mapping has as
  key set exactly the pool's agent names minus \<open>c\<close>, each worker with the entry of its
  own call; the workers mapping is left out of the result exactly when \<open>c\<close> is the only
  agent. (The names of a dictionary are distinct.)
\<close>

theorem execute_hierarchical_coordinator_member:
  assumes d: "distinct (map fst (agents p))" and c: "c \<noteq> []" and m: "(c, a) \<in> set (agents p)"
    and run: "execute_hierarchical clk task (Some c) (p, t) = (results, p', t')"
  shows "(\<forall>r. fst (Agent_execute clk (''Coordinate: '' @ task) (a, t)) = Inr r \<longrightarrow>
            map_of results ''coordinator'' =
              Some (PDict [(''agent'', PStr c), (''result'', PStr r)]))
       \<and> (\<forall>e. fst (Agent_execute clk (''Coordinate: '' @ task) (a, t)) = Inl e \<longrightarrow>
            (\<exists>sec. map_of results ''coordinator'' = Some (PDict sec)
               \<and> map_of sec ''error'' = Some (PStr (str_exn e))))
       \<and> (case map_of results ''workers'' of
            None \<Rightarrow> fst ` set (agents p) = {c}
          | Some w \<Rightarrow>
              fst ` set (agents p) \<noteq> {c}
            \<and> (\<exists>workers. w = PDict workers
                 \<and> fst ` set workers = fst ` set (agents p) - {c}
                 \<and> (\<forall>(n, b) \<in> set (agents p). n \<noteq> c \<longrightarrow>
                       map_of workers n =
                         Some (case fst (Agent_execute clk task (b, t)) of
                                 Inl e \<Rightarrow> PDict [(''status'', PStr ''failed''),
                                                 (''error'', PStr (str_exn e))]
                               | Inr r \<Rightarrow> PDict [(''status'', PStr ''success''),
                                                 (''result'', PStr r)]))))"
proof -
  let ?ws = "filter (\<lambda>(n, a). n \<noteq> c) (agents p)"
  let ?workers = "map (\<lambda>(n, a). (n, entry_of (config a) task)) ?ws"
  let ?sec = "case placeholder (config a) (''Coordinate: '' @ task) of
          Inr r \<Rightarrow> PDict [(''agent'', PStr c), (''result'', PStr r)]
        | Inl e \<Rightarrow> PDict [(''error'', PStr (str_exn e))]"
  from hier_member [OF d c m, of clk task t] run
  have res: "results = (''coordinator'', ?sec) #
      (if ?ws = [] then [] else [(''workers'', PDict ?workers)])" by simp
  have k: "fst ` set ?workers = fst ` set (agents p) - {c}"
    using keys_filter_other [of c "agents p"] by (simp add: image_image case_prod_unfold)
  from m have cin: "c \<in> fst ` set (agents p)" by (simp add: rev_image_eqI)
  have empty: "?ws = [] \<longleftrightarrow> fst ` set (agents p) = {c}"
  proof
    assume "?ws = []"
    then have "fst ` set ?ws = {}" by simp
    with keys_filter_other [of c "agents p"] cin show "fst ` set (agents p) = {c}" by auto
  next
    assume "fst ` set (agents p) = {c}"
    with keys_filter_other [of c "agents p"] have "fst ` set ?ws = {}" by simp
    then have "set ?ws = {}" by (simp only: image_is_empty)
    then show "?ws = []" by (simp only: set_empty)
  qed
  have entries: "\<forall>(n, b) \<in> set (agents p). n \<noteq> c \<longrightarrow> map_of ?workers n =
       Some (case fst (Agent_execute clk task (b, t)) of
               Inl e \<Rightarrow> PDict [(''status'', PStr ''failed''), (''error'', PStr (str_exn e))]
             | Inr r \<Rightarrow> PDict [(''status'', PStr ''success''), (''result'', PStr r)])"
    using map_of_workers [OF d, of _ _ c "\<lambda>a. entry_of (config a) task"]
    by (auto simp: Agent_execute_fst entry_of_def failed_entry_def success_entry_def
        split: sum.splits)
  have coord_ok: "\<forall>r. fst (Agent_execute clk (''Coordinate: '' @ task) (a, t)) = Inr r \<longrightarrow>
            map_of results ''coordinator'' =
              Some (PDict [(''agent'', PStr c), (''result'', PStr r)])"
    unfolding res Agent_execute_fst by simp
  have coord_err: "\<forall>e. fst (Agent_execute clk (''Coordinate: '' @ task) (a, t)) = Inl e \<longrightarrow>
            (\<exists>sec. map_of results ''coordinator'' = Some (PDict sec)
               \<and> map_of sec ''error'' = Some (PStr (str_exn e)))"
    unfolding res Agent_execute_fst by simp
  have workers: "(case map_of results ''workers'' of
            None \<Rightarrow> fst ` set (agents p) = {c}
          | Some w \<Rightarrow>
              fst ` set (agents p) \<noteq> {c}
            \<and> (\<exists>workers. w = PDict workers
                 \<and> fst ` set workers = fst ` set (agents p) - {c}
                 \<and> (\<forall>(n, b) \<in> set (agents p). n \<noteq> c \<longrightarrow>
                       map_of workers n =
                         Some (case fst (Agent_execute clk task (b, t)) of
                                 Inl e \<Rightarrow> PDict [(''status'', PStr ''failed''),
                                                 (''error'', PStr (str_exn e))]
                               | Inr r \<Rightarrow> PDict [(''status'', PStr ''success''),
                                                 (''result'', PStr r)]))))"
  proof (cases "?ws = []")
    case True
    with empty res show ?thesis by simp
  next
    case False
    with empty have ne: "fst ` set (agents p) \<noteq> {c}" by simp
    from False res have "map_of results ''workers'' = Some (PDict ?workers)" by simp
    with ne k entries show ?thesis by simp
  qed
  from coord_ok coord_err workers show ?thesis by blast
qed

text \<open>
  The example of the specification: agents \<open>A\<close>, \<open>B\<close>, \<open>C\<close> and coordinator \<open>B\<close>.
\<close>

theorem execute_hierarchical_coordinator_member_witness:
  "distinct (map fst (agents abc_pool)) \<and> (''B'', Agent_init b_cfg) \<in> set (agents abc_pool)
   \<and> map_of (fst (execute_hierarchical demo_clock ''t'' (Some ''B'') (abc_pool, 0)))
        ''coordinator'' =
       Some (PDict [(''agent'', PStr ''B''),
                    (''result'', PStr ''Agent B (coordinator) processed: Coordinate: t'')])
   \<and> (\<exists>workers.
         map_of (fst (execute_hierarchical demo_clock ''t'' (Some ''B'') (abc_pool, 0)))
           ''workers'' = Some (PDict workers)
       \<and> fst ` set workers = {''A'', ''C''})"
proof -
  let ?run = "execute_hierarchical demo_clock ''t'' (Some ''B'') (abc_pool, 0)"
  have d: "distinct (map fst (agents abc_pool))" by (simp add: agents_abc_pool)
  have c: "''B'' \<noteq> []" by simp
  have m: "(''B'', Agent_init b_cfg) \<in> set (agents abc_pool)" by (simp add: agents_abc_pool)
  have run: "?run = (fst ?run, fst (snd ?run), snd (snd ?run))" by simp
  note T = execute_hierarchical_coordinator_member [OF d c m run]
  have ok: "fst (Agent_execute demo_clock (''Coordinate: '' @ ''t'') (Agent_init b_cfg, 0)) =
        Inr ''Agent B (coordinator) processed: Coordinate: t''"
    by (simp add: Agent_execute_fst placeholder_abc)
  have coord: "map_of (fst ?run) ''coordinator'' =
       Some (PDict [(''agent'', PStr ''B''),
                    (''result'', PStr ''Agent B (coordinator) processed: Coordinate: t'')])"
    by (rule T [THEN conjunct1, rule_format, OF ok])
  have names: "fst ` set (agents abc_pool) = {''A'', ''B'', ''C''}"
    by (simp add: agents_abc_pool)
  then have ne: "fst ` set (agents abc_pool) \<noteq> {''B''}" by auto
  from names have diff: "fst ` set (agents abc_pool) - {''B''} = {''A'', ''C''}" by auto
  note w = T [THEN conjunct2, THEN conjunct2]
  have "\<exists>workers. map_of (fst ?run) ''workers'' = Some (PDict workers)
       \<and> fst ` set workers = {''A'', ''C''}"
  proof (cases "map_of (fst ?run) ''workers''")
    case None
    from w [unfolded None] have "fst ` set (agents abc_pool) = {''B''}"
      by (simp only: option.simps)
    with ne show ?thesis by (rule notE)
  next
    case (Some v)
    from w [unfolded Some option.simps] have
      "\<exists>workers. v = PDict workers
         \<and> fst ` set workers = fst ` set (agents abc_pool) - {''B''}
         \<and> (\<forall>(n, b) \<in> set (agents abc_pool). n \<noteq> ''B'' \<longrightarrow>
               map_of workers n =
                 Some (case fst (Agent_execute demo_clock ''t'' (b, 0)) of
                         Inl e \<Rightarrow> PDict [(''status'', PStr ''failed''),
                                         (''error'', PStr (str_exn e))]
                       | Inr r \<Rightarrow> PDict [(''status'', PStr ''success''),
                                         (''result'', PStr r)]))"
      by (rule conjunct2)
    then obtain workers where v: "v = PDict workers"
      and k: "fst ` set workers = fst ` set (agents abc_pool) - {''B''}"
      by (elim exE conjE)
    from Some v have 1: "map_of (fst ?run) ''workers'' = Some (PDict workers)" by (simp only:)
    from k diff have 2: "fst ` set workers = {''A'', ''C''}" by (simp only:)
    from 1 2 show ?thesis by (intro exI [of _ workers] conjI)
  qed
  with d m coord show ?thesis by (simp only: simp_thms)
qed

text \<open>
  The claim as stated fails at two inputs. When the coordinator \<^verbatim>\<open>bob\<close> raises, the
  coordinator section is \<^verbatim>\<open>{error}\<close> alone, without the field \<^verbatim>\<open>agent\<close>. When the
  explicit coordinator is the agent named by the empty string, \<^verbatim>\<open>not coordinator\<close>
  holds and the first agent, \<^verbatim>\<open>alice\<close>, coordinates instead: the section names
  \<^verbatim>\<open>alice\<close> and the workers are the agent with the empty name.
\<close>

theorem execute_hierarchical_coordinator_counterexample:
  "(''bob'', Agent_init broken_cfg) \<in> set (agents demo_pool)
   \<and> fst (execute_hierarchical demo_clock ''t'' (Some ''bob'') (demo_pool, 0)) =
       [(''coordinator'', PDict [(''error'', PStr none_msg)]),
        (''workers'', PDict
           [(''alice'', PDict [(''status'', PStr ''success''),
               (''result'', PStr ''Agent alice (researcher) processed: t'')]),
            (''carol'', PDict [(''status'', PStr ''success''),
               (''result'', PStr ''Agent carol (analyzer) processed: t'')])])]
   \<and> ([], Agent_init unnamed_cfg) \<in> set (agents unnamed_pool)
   \<and> fst (execute_hierarchical demo_clock ''t'' (Some []) (unnamed_pool, 0)) =
       [(''coordinator'', PDict [(''agent'', PStr ''alice''),
           (''result'', PStr ''Agent alice (researcher) processed: Coordinate: t'')]),
        (''workers'', PDict
           [([], PDict [(''status'', PStr ''success''),
               (''result'', PStr ''Agent  (executor) processed: t'')])])]"
proof -
  have d: "distinct (map fst (agents demo_pool))" by (simp add: agents_demo_pool)
  have m: "(''bob'', Agent_init broken_cfg) \<in> set (agents demo_pool)"
    by (simp add: agents_demo_pool)
  have one: "fst (execute_hierarchical demo_clock ''t'' (Some ''bob'') (demo_pool, 0)) =
       [(''coordinator'', PDict [(''error'', PStr none_msg)]),
        (''workers'', PDict
           [(''alice'', PDict [(''status'', PStr ''success''),
               (''result'', PStr ''Agent alice (researcher) processed: t'')]),
            (''carol'', PDict [(''status'', PStr ''success''),
               (''result'', PStr ''Agent carol (analyzer) processed: t'')])])]"
    using hier_member [OF d _ m, of demo_clock "''t''" 0]
    by (simp add: agents_demo_pool placeholder_examples entry_of_def success_entry_def)
  have d': "distinct (map fst (agents unnamed_pool))" by (simp add: agents_unnamed_pool)
  have m': "([], Agent_init unnamed_cfg) \<in> set (agents unnamed_pool)"
    by (simp add: agents_unnamed_pool)
  have a: "(''alice'', Agent_init researcher_cfg) \<in> set (agents unnamed_pool)"
    by (simp add: agents_unnamed_pool)
  have "execute_hierarchical demo_clock ''t'' (Some []) (unnamed_pool, 0) =
        execute_hierarchical demo_clock ''t'' (Some ''alice'') (unnamed_pool, 0)"
    using hier_default [of "Some []" unnamed_pool demo_clock "''t''" 0]
    by (simp add: truthy_def agents_unnamed_pool)
  with hier_member [OF d' _ a, of demo_clock "''t''" 0]
  have two: "fst (execute_hierarchical demo_clock ''t'' (Some []) (unnamed_pool, 0)) =
       [(''coordinator'', PDict [(''agent'', PStr ''alice''),
           (''result'', PStr ''Agent alice (researcher) processed: Coordinate: t'')]),
        (''workers'', PDict
           [([], PDict [(''status'', PStr ''success''),
               (''result'', PStr ''Agent  (executor) processed: t'')])])]"
    by (simp add: agents_unnamed_pool placeholder_examples entry_of_def success_entry_def)
  from m one m' two show ?thesis by (intro conjI)
qed

text \<open>
  C10 (as amended). For every non-empty pool, if hierarchical execution is given an
  explicit, non-empty coordinator name that is not an agent of the pool, the result
  has no coordinator section and every agent of the pool appears as a worker: the keys
  of the workers mapping are the agent names of the pool.
\<close>

theorem execute_hierarchical_coordinator_stranger:
  assumes d: "distinct (map fst (agents p))" and c: "c \<noteq> []"
    and m: "c \<notin> fst ` set (agents p)" and ne: "agents p \<noteq> []"
  shows "map_of (fst (execute_hierarchical clk task (Some c) (p, t))) ''coordinator'' = None
       \<and> (\<exists>workers.
             map_of (fst (execute_hierarchical clk task (Some c) (p, t))) ''workers'' =
               Some (PDict workers)
           \<and> map fst workers = map fst (agents p))"
proof -
  have keys: "map fst (map (\<lambda>(n, a). (n, entry_of (config a) task)) (agents p)) =
      map fst (agents p)" by (induction "agents p") auto
  show ?thesis unfolding hier_stranger [OF d c m ne] using keys by simp
qed

theorem execute_hierarchical_coordinator_stranger_witness:
  "distinct (map fst (agents demo_pool)) \<and> ''zed'' \<noteq> []
   \<and> ''zed'' \<notin> fst ` set (agents demo_pool) \<and> agents demo_pool \<noteq> []
   \<and> map_of (fst (execute_hierarchical demo_clock ''t'' (Some ''zed'') (demo_pool, 0)))
        ''coordinator'' = None
   \<and> (\<exists>workers.
         map_of (fst (execute_hierarchical demo_clock ''t'' (Some ''zed'') (demo_pool, 0)))
           ''workers'' = Some (PDict workers)
       \<and> map fst workers = [''alice'', ''bob'', ''carol''])"
proof -
  have d: "distinct (map fst (agents demo_pool))" by (simp add: agents_demo_pool)
  have c: "''zed'' \<noteq> []" by simp
  have m: "''zed'' \<notin> fst ` set (agents demo_pool)" by (simp add: agents_demo_pool)
  have ne: "agents demo_pool \<noteq> []" by (simp add: agents_demo_pool)
  from execute_hierarchical_coordinator_stranger [OF d c m ne, of demo_clock "''t''" 0]
    d c m ne show ?thesis by (simp add: agents_demo_pool)
qed

text \<open>
  The claim as stated fails for the empty string, which is no agent of the pool:
  \<^verbatim>\<open>not coordinator\<close> holds, so the first agent is made coordinator, the result has a
  coordinator section and \<^verbatim>\<open>alice\<close> is no worker.
\<close>

theorem execute_hierarchical_coordinator_stranger_counterexample:
  "agents ok_pool \<noteq> [] \<and> [] \<notin> fst ` set (agents ok_pool)
   \<and> fst (execute_hierarchical demo_clock ''t'' (Some []) (ok_pool, 0)) =
       [(''coordinator'', PDict [(''agent'', PStr ''alice''),
           (''result'', PStr ''Agent alice (researcher) processed: Coordinate: t'')]),
        (''workers'', PDict
           [(''carol'', PDict [(''status'', PStr ''success''),
               (''result'', PStr ''Agent carol (analyzer) processed: t'')])])]"
proof -
  have d: "distinct (map fst (agents ok_pool))" by (simp add: agents_ok_pool)
  have a: "(''alice'', Agent_init researcher_cfg) \<in> set (agents ok_pool)"
    by (simp add: agents_ok_pool)
  have "execute_hierarchical demo_clock ''t'' (Some []) (ok_pool, 0) =
        execute_hierarchical demo_clock ''t'' (Some ''alice'') (ok_pool, 0)"
    using hier_default [of "Some []" ok_pool demo_clock "''t''" 0]
    by (simp add: truthy_def agents_ok_pool)
  with hier_member [OF d _ a, of demo_clock "''t''" 0]
  have "fst (execute_hierarchical demo_clock ''t'' (Some []) (ok_pool, 0)) =
       [(''coordinator'', PDict [(''agent'', PStr ''alice''),
           (''result'', PStr ''Agent alice (researcher) processed: Coordinate: t'')]),
        (''workers'', PDict
           [(''carol'', PDict [(''status'', PStr ''success''),
               (''result'', PStr ''Agent carol (analyzer) processed: t'')])])]"
    by (simp add: agents_ok_pool placeholder_examples entry_of_def success_entry_def)
  then show ?thesis by (simp add: agents_ok_pool)
qed

section \<open>The evaluation engine: scores and their mean\<close>




section \<open>The memory manager: the index covers the long-term storage\<close>

text \<open>
  The long-term storage and the index after \<^verbatim>\<open>store_long_term\<close>, as maps; the other
  operations leave both as they are.
\<close>

lemma absent_iff: "k \<notin> fst ` set al \<longleftrightarrow> map_of al k = None"
  by (simp add: map_of_eq_None_iff)

lemma store_long_term_long_term:
  "map_of (long_term (fst (store_long_term clk key v category (m, t)))) =
     (map_of (long_term m))(category \<mapsto>
        AList.update key [(''value'', v), (''timestamp'', PStamp (clk t))]
          (case map_of (long_term m) category of None \<Rightarrow> [] | Some b \<Rightarrow> b))"
  by (cases "map_of (long_term m) category")
     (simp_all add: store_long_term_def Let_def absent_iff map_of_map_entry update_conv' fun_eq_iff)

lemma store_long_term_index:
  "map_of (memory_index (fst (store_long_term clk key v category (m, t)))) =
     (map_of (memory_index m))(category \<mapsto>
        (case map_of (memory_index m) category of None \<Rightarrow> [] | Some ks \<Rightarrow> ks) @ [key])"
  by (cases "map_of (memory_index m) category")
     (simp_all add: store_long_term_def Let_def absent_iff map_of_map_entry update_conv' fun_eq_iff)

lemma store_long_term_covers:
  assumes inv: "index_covers m"
  shows "index_covers (fst (store_long_term clk key v category (m, t)))"
  unfolding index_covers_def
proof (intro allI impI)
  fix c bucket k
  let ?m' = "fst (store_long_term clk key v category (m, t))"
  assume b: "map_of (long_term ?m') c = Some bucket" and k: "k \<in> fst ` set bucket"
  show "\<exists>keys. map_of (memory_index ?m') c = Some keys \<and> k \<in> set keys"
  proof (cases "c = category")
    case False
    with b have "map_of (long_term m) c = Some bucket"
      by (simp add: store_long_term_long_term)
    with inv k obtain keys where "map_of (memory_index m) c = Some keys" "k \<in> set keys"
      unfolding index_covers_def by blast
    with False show ?thesis by (simp add: store_long_term_index)
  next
    case True
    let ?old = "case map_of (long_term m) category of None \<Rightarrow> [] | Some b \<Rightarrow> b"
    from b True have "bucket = AList.update key [(''value'', v), (''timestamp'', PStamp (clk t))] ?old"
      by (simp add: store_long_term_long_term)
    with k have "k = key \<or> k \<in> fst ` set ?old" by (auto simp: dom_update)
    then show ?thesis
    proof
      assume "k = key"
      with True show ?thesis by (simp add: store_long_term_index)
    next
      assume old: "k \<in> fst ` set ?old"
      then obtain b0 where b0: "map_of (long_term m) category = Some b0" and "k \<in> fst ` set b0"
        by (cases "map_of (long_term m) category") auto
      with inv obtain keys where "map_of (memory_index m) category = Some keys" "k \<in> set keys"
        unfolding index_covers_def by blast
      with True show ?thesis by (simp add: store_long_term_index)
    qed
  qed
qed

lemma store_short_term_covers:
  "index_covers m \<Longrightarrow> index_covers (fst (store_short_term clk key v ttl (m, t)))"
  by (simp add: index_covers_def store_short_term_def)

lemma clear_short_term_covers: "index_covers m \<Longrightarrow> index_covers (clear_short_term m)"
  by (simp add: index_covers_def clear_short_term_def)

lemma apply_op_covers:
  "index_covers (fst s) \<Longrightarrow> index_covers (fst (apply_op clk op s))"
  by (cases s; cases op)
     (simp_all add: store_long_term_covers store_short_term_covers clear_short_term_covers)

lemma apply_ops_covers:
  "index_covers (fst s) \<Longrightarrow> index_covers (fst (apply_ops clk ops s))"
  by (induction ops arbitrary: s) (simp_all add: apply_op_covers)

lemma init_covers: "index_covers MemoryManager_init"
  by (simp add: index_covers_def MemoryManager_init_def)

text \<open>
  C8. After every sequence of operations on a new memory manager, for every category,
  every key of that category's long-term bucket occurs in that category's index. And
  \<^verbatim>\<open>store_long_term\<close>, called in such a state, leaves a bucket for the category that
  holds the key, and the index of the category is the index before the call (empty when
  the category was new) with the key appended, whether or not the key was in the bucket
  already.
\<close>

theorem memory_index_covers_long_term:
  assumes "apply_ops clk ops (MemoryManager_init, t0) = (m, t)"
  shows "(\<forall>category bucket key.
            map_of (long_term m) category = Some bucket \<longrightarrow> key \<in> fst ` set bucket \<longrightarrow>
            (\<exists>keys. map_of (memory_index m) category = Some keys \<and> key \<in> set keys))
       \<and> (\<forall>key v category.
            (\<exists>bucket. map_of (long_term (fst (store_long_term clk key v category (m, t))))
                         category = Some bucket \<and> key \<in> fst ` set bucket)
          \<and> map_of (memory_index (fst (store_long_term clk key v category (m, t)))) category =
              Some ((case map_of (memory_index m) category of None \<Rightarrow> [] | Some ks \<Rightarrow> ks)
                    @ [key]))"
proof -
  from apply_ops_covers [of "(MemoryManager_init, t0)" clk ops] init_covers assms
  have "index_covers m" by simp
  then have 1: "\<forall>category bucket key.
            map_of (long_term m) category = Some bucket \<longrightarrow> key \<in> fst ` set bucket \<longrightarrow>
            (\<exists>keys. map_of (memory_index m) category = Some keys \<and> key \<in> set keys)"
    unfolding index_covers_def .
  have 2: "\<forall>key v category.
            (\<exists>bucket. map_of (long_term (fst (store_long_term clk key v category (m, t))))
                         category = Some bucket \<and> key \<in> fst ` set bucket)
          \<and> map_of (memory_index (fst (store_long_term clk key v category (m, t)))) category =
              Some ((case map_of (memory_index m) category of None \<Rightarrow> [] | Some ks \<Rightarrow> ks)
                    @ [key])"
    by (simp add: store_long_term_long_term store_long_term_index dom_update)
  from 1 2 show ?thesis by (rule conjI)
qed

theorem memory_index_covers_long_term_witness:
  "apply_ops demo_clock demo_ops (MemoryManager_init, 0) =
     (\<lparr>memory_type = ''chroma'', short_term = [],
       long_term = [(''c'', [(''k'', [(''value'', PInt 2), (''timestamp'', PStamp 2)])])],
       memory_index = [(''c'', [''k'', ''k''])]\<rparr>, 3)
   \<and> (\<exists>keys. map_of [(''c'', [''k'', ''k''])] ''c'' = Some keys \<and> ''k'' \<in> set keys)
   \<and> map_of (memory_index (fst (store_long_term demo_clock ''k'' (PInt 3) ''c''
        (\<lparr>memory_type = ''chroma'', short_term = [],
          long_term = [(''c'', [(''k'', [(''value'', PInt 2), (''timestamp'', PStamp 2)])])],
          memory_index = [(''c'', [''k'', ''k''])]\<rparr>, 3)))) ''c'' = Some [''k'', ''k'', ''k'']"
proof -
  let ?m = "\<lparr>memory_type = ''chroma'', short_term = [],
       long_term = [(''c'', [(''k'', [(''value'', PInt 2), (''timestamp'', PStamp 2)])])],
       memory_index = [(''c'', [''k'', ''k''])]\<rparr>"
  have h: "apply_ops demo_clock demo_ops (MemoryManager_init, 0) = (?m, 3)"
    by (simp add: demo_ops_def MemoryManager_init_def store_long_term_def store_short_term_def
        clear_short_term_def demo_clock_def Let_def)
  note T = memory_index_covers_long_term [OF h]
  from T [THEN conjunct1, rule_format, of "''c''" _ "''k''"]
  have a: "\<exists>keys. map_of [(''c'', [''k'', ''k''])] ''c'' = Some keys \<and> ''k'' \<in> set keys"
    by simp
  from T [THEN conjunct2, rule_format, of "''k''" "PInt 3" "''c''"]
  have b: "map_of (memory_index (fst (store_long_term demo_clock ''k'' (PInt 3) ''c'' (?m, 3))))
      ''c'' = Some [''k'', ''k'', ''k'']"
    by simp
  from h a b show ?thesis by (intro conjI)
qed

section \<open>The pipeline: a run completes and files one new key\<close>

text \<open>
  The key \<^verbatim>\<open>task_\<close> followed by a count determines the count, so keys made from
  different counts differ.
\<close>

lemma nat_of_str_str_nat: "nat_of_str (str_nat n) = n"
proof (induction n rule: str_nat.induct)
  case (1 n)
  show ?case
  proof (cases "n < 10")
    case True
    then show ?thesis by (simp add: str_nat.simps [of n] nat_of_str_def)
  next
    case False
    have m: "(48 + n mod 10) mod 256 = 48 + n mod 10" by simp
    from False 1 m show ?thesis
      by (simp add: str_nat.simps [of n] nat_of_str_def)
  qed
qed

lemma str_nat_inj: "str_nat m = str_nat n \<Longrightarrow> m = n"
  by (metis nat_of_str_str_nat)

lemma task_key_inj: "task_key i = task_key j \<Longrightarrow> i = j"
  by (simp add: task_key_def str_nat_inj)

text \<open>
  A run is the five stages in the order of the edges. Each run files the key made from
  the number of keys under \<^verbatim>\<open>"tasks"\<close>; starting from a new graph object the keys
  under \<^verbatim>\<open>"tasks"\<close> are therefore \<^verbatim>\<open>task_0\<close>, \<^verbatim>\<open>task_1\<close>, ... in order, and the key
  of the next run is not among them.
\<close>

lemma run_stages:
  "run clk tsk (g, t) =
     (case process_input clk (g, initial_state tsk, t) of Inl e \<Rightarrow> Inl e | Inr s1 \<Rightarrow>
      case agent_execution clk s1 of Inl e \<Rightarrow> Inl e | Inr s2 \<Rightarrow>
      case evaluation clk s2 of Inl e \<Rightarrow> Inl e | Inr s3 \<Rightarrow>
      case memory_update clk s3 of Inl e \<Rightarrow> Inl e | Inr s4 \<Rightarrow>
      aggregate_results clk s4)"
  by (simp add: run_def recursion_limit_def numeral_eq_Suc nodes_def edges_def
      entry_point_def END_def split: sum.splits)

lemma evaluate_output_tick: "snd (snd (evaluate_output clk out cr (e, t))) = t + 1"
  by (simp add: evaluate_output_def Let_def)

lemma store_long_term_tick: "snd (store_long_term clk key v category (m, t)) = t + 1"
  by (simp add: store_long_term_def Let_def)

lemma run_Inr:
  "\<exists>g' st v. run clk tsk (g, t) = Inr (g', st, t + 4)
     \<and> s_status st = ''completed''
     \<and> s_messages st = [HumanMessage tsk, AIMessage (''Task completed: '' @ take 50 tsk @ ''...'')]
     \<and> graph_memory g' = fst (store_long_term clk
           (task_key (length (case map_of (long_term (graph_memory g)) ''tasks'' of
                      None \<Rightarrow> [] | Some b \<Rightarrow> b))) v ''tasks''
           (fst (store_short_term clk ''current_task'' (PStr tsk) PNone (graph_memory g, t)),
            Suc (Suc (Suc t))))"
  unfolding run_stages
  apply (simp add: initial_state_def process_input_def agent_execution_def
      evaluation_def memory_update_def aggregate_results_def Let_def store_short_term_def
      task_key_def split_beta evaluate_output_tick store_long_term_tick)
  apply (rule exI, rule refl)
  done

lemma update_keys:
  "map fst (AList.update k v al) = (if k \<in> fst ` set al then map fst al else map fst al @ [k])"
  by (induction al) auto

lemma tasks_keys_after_store:
  assumes "long_term m1 = long_term (graph_memory g)"
    and "graph_memory g' = fst (store_long_term clk key v ''tasks'' (m1, t))"
  shows "tasks_keys g' =
           (if key \<in> set (tasks_keys g) then tasks_keys g else tasks_keys g @ [key])"
  using assms
  by (cases "map_of (long_term (graph_memory g)) ''tasks''")
     (simp_all add: tasks_keys_def store_long_term_long_term update_keys)

lemma numbered_fresh: "numbered ks \<Longrightarrow> task_key (length ks) \<notin> set ks"
proof
  assume n: "numbered ks" and "task_key (length ks) \<in> set ks"
  then have "task_key (length ks) \<in> set (map task_key [0..<length ks])"
    by (simp add: numbered_def)
  then obtain i where "i < length ks" "task_key i = task_key (length ks)" by auto
  with task_key_inj show False by blast
qed

lemma numbered_snoc: "numbered ks \<Longrightarrow> numbered (ks @ [task_key (length ks)])"
  by (simp add: numbered_def)

lemma short_term_keeps_long_term:
  "long_term (fst (store_short_term clk key v ttl (m, t))) = long_term m"
  "memory_index (fst (store_short_term clk key v ttl (m, t))) = memory_index m"
  by (simp_all add: store_short_term_def)

lemma run_tasks_keys:
  assumes n: "numbered (tasks_keys g)"
  shows "\<exists>g' st. run clk tsk (g, t) = Inr (g', st, t + 4)
     \<and> s_status st = ''completed''
     \<and> s_messages st = [HumanMessage tsk, AIMessage (''Task completed: '' @ take 50 tsk @ ''...'')]
     \<and> task_key (length (tasks_keys g)) \<notin> set (tasks_keys g)
     \<and> tasks_keys g' = tasks_keys g @ [task_key (length (tasks_keys g))]"
proof -
  from run_Inr [of clk tsk g t] obtain g' st v where
    r: "run clk tsk (g, t) = Inr (g', st, t + 4)"
    and s: "s_status st = ''completed''"
    and m: "s_messages st = [HumanMessage tsk, AIMessage (''Task completed: '' @ take 50 tsk @ ''...'')]"
    and mem: "graph_memory g' = fst (store_long_term clk
           (task_key (length (case map_of (long_term (graph_memory g)) ''tasks'' of
                      None \<Rightarrow> [] | Some b \<Rightarrow> b))) v ''tasks''
           (fst (store_short_term clk ''current_task'' (PStr tsk) PNone (graph_memory g, t)),
            Suc (Suc (Suc t))))"
    by blast
  have len: "length (case map_of (long_term (graph_memory g)) ''tasks'' of
                      None \<Rightarrow> [] | Some b \<Rightarrow> b) = length (tasks_keys g)"
    by (cases "map_of (long_term (graph_memory g)) ''tasks''") (simp_all add: tasks_keys_def)
  note fresh = numbered_fresh [OF n]
  from tasks_keys_after_store [OF short_term_keeps_long_term(1) mem [unfolded len]] fresh
  have "tasks_keys g' = tasks_keys g @ [task_key (length (tasks_keys g))]" by simp
  with r s m fresh show ?thesis by blast
qed

lemma runs_numbered:
  "numbered (tasks_keys g) \<Longrightarrow> \<exists>g' t'. runs clk tsks (g, t) = Inr (g', t') \<and> numbered (tasks_keys g')"
proof (induction tsks arbitrary: g t)
  case Nil
  then show ?case by simp
next
  case (Cons tsk tsks)
  from run_tasks_keys [OF Cons.prems, of clk tsk t] obtain g1 st where
    r: "run clk tsk (g, t) = Inr (g1, st, t + 4)"
    and k: "tasks_keys g1 = tasks_keys g @ [task_key (length (tasks_keys g))]" by blast
  from k numbered_snoc [OF Cons.prems] have "numbered (tasks_keys g1)" by simp
  from Cons.IH [OF this, of "t + 4"] r show ?case by simp
qed

lemma init_numbered: "numbered (tasks_keys SwarmGraph_init)"
  by (simp add: numbered_def tasks_keys_def SwarmGraph_init_def MemoryManager_init_def)

text \<open>
  C7. For every task string, a pipeline run on a graph object (new, or used for any
  number of earlier runs) starts from the fresh initial state and returns: the status
  is \<^verbatim>\<open>"completed"\<close>, \<^verbatim>\<open>messages\<close> holds exactly two entries, the input turn and then
  the completion turn, and exactly one new key, \<^verbatim>\<open>task_\<close> followed by the number of
  keys filed before, is filed under the long-term category \<^verbatim>\<open>"tasks"\<close>.
\<close>

theorem run_completes:
  assumes "runs clk earlier (SwarmGraph_init, t0) = Inr (g, t)"
  shows "\<exists>g' st t'. run clk tsk (g, t) = Inr (g', st, t')
     \<and> s_status st = ''completed''
     \<and> s_messages st =
         [HumanMessage tsk, AIMessage (''Task completed: '' @ take 50 tsk @ ''...'')]
     \<and> ''task_'' @ str_nat (length (tasks_keys g)) \<notin> set (tasks_keys g)
     \<and> tasks_keys g' = tasks_keys g @ [''task_'' @ str_nat (length (tasks_keys g))]"
proof -
  from runs_numbered [OF init_numbered, of clk earlier t0] assms
  have "numbered (tasks_keys g)" by simp
  from run_tasks_keys [OF this, of clk tsk t] show ?thesis
    unfolding task_key_def by blast
qed

theorem run_completes_witness:
  "runs demo_clock [] (SwarmGraph_init, 0) = Inr (SwarmGraph_init, 0)
   \<and> tasks_keys SwarmGraph_init = []
   \<and> (\<exists>g' st t'. run demo_clock ''demo task'' (SwarmGraph_init, 0) = Inr (g', st, t')
         \<and> s_status st = ''completed''
         \<and> s_messages st =
             [HumanMessage ''demo task'', AIMessage ''Task completed: demo task...'']
         \<and> tasks_keys g' = [''task_0'']
         \<and> runs demo_clock [''demo task''] (SwarmGraph_init, 0) = Inr (g', t')
         \<and> (\<exists>g'' st' t''. run demo_clock ''next task'' (g', t') = Inr (g'', st', t'')
               \<and> s_status st' = ''completed''
               \<and> s_messages st' =
                   [HumanMessage ''next task'', AIMessage ''Task completed: next task...'']
               \<and> tasks_keys g'' = [''task_0'', ''task_1'']))"
proof -
  have h: "runs demo_clock [] (SwarmGraph_init, 0) = Inr (SwarmGraph_init, 0)" by simp
  have k: "tasks_keys SwarmGraph_init = []"
    by (simp add: tasks_keys_def SwarmGraph_init_def MemoryManager_init_def)
  have "char_of (48 :: nat) = CHR ''0''" by code_simp
  then have z: "str_nat 0 = ''0''" by (simp add: str_nat.simps [of 0])
  have "char_of (49 :: nat) = CHR ''1''" by code_simp
  then have o: "str_nat (Suc 0) = ''1''" by (simp add: str_nat.simps [of "Suc 0"])
  from run_completes [OF h, of "''demo task''"] obtain g' st t' where
    r1: "run demo_clock ''demo task'' (SwarmGraph_init, 0) = Inr (g', st, t')"
    and s1: "s_status st = ''completed''"
    and m1: "s_messages st = [HumanMessage ''demo task'',
        AIMessage (''Task completed: '' @ take 50 ''demo task'' @ ''...'')]"
    and k1: "tasks_keys g' = tasks_keys SwarmGraph_init @
        [''task_'' @ str_nat (length (tasks_keys SwarmGraph_init))]"
    by (elim exE conjE)
  from k1 k z have k1': "tasks_keys g' = [''task_0'']" by simp
  from r1 have h2: "runs demo_clock [''demo task''] (SwarmGraph_init, 0) = Inr (g', t')"
    by simp
  from run_completes [OF h2, of "''next task''"] obtain g'' st' t'' where
    r2: "run demo_clock ''next task'' (g', t') = Inr (g'', st', t'')"
    and s2: "s_status st' = ''completed''"
    and m2: "s_messages st' = [HumanMessage ''next task'',
        AIMessage (''Task completed: '' @ take 50 ''next task'' @ ''...'')]"
    and k2: "tasks_keys g'' = tasks_keys g' @ [''task_'' @ str_nat (length (tasks_keys g'))]"
    by (elim exE conjE)
  from k2 k1' o have k2': "tasks_keys g'' = [''task_0'', ''task_1'']" by simp
  from r2 s2 m2 k2' have second:
    "\<exists>g'' st' t''. run demo_clock ''next task'' (g', t') = Inr (g'', st', t'')
       \<and> s_status st' = ''completed''
       \<and> s_messages st' =
           [HumanMessage ''next task'', AIMessage ''Task completed: next task...'']
       \<and> tasks_keys g'' = [''task_0'', ''task_1'']"
    by (intro exI [of _ g''] exI [of _ st'] exI [of _ t'']) simp
  from r1 s1 m1 k1' h2 second have
    "\<exists>g' st t'. run demo_clock ''demo task'' (SwarmGraph_init, 0) = Inr (g', st, t')
         \<and> s_status st = ''completed''
         \<and> s_messages st =
             [HumanMessage ''demo task'', AIMessage ''Task completed: demo task...'']
         \<and> tasks_keys g' = [''task_0'']
         \<and> runs demo_clock [''demo task''] (SwarmGraph_init, 0) = Inr (g', t')
         \<and> (\<exists>g'' st' t''. run demo_clock ''next task'' (g', t') = Inr (g'', st', t'')
               \<and> s_status st' = ''completed''
               \<and> s_messages st' =
                   [HumanMessage ''next task'', AIMessage ''Task completed: next task...'']
               \<and> tasks_keys g'' = [''task_0'', ''task_1''])"
    by (intro exI [of _ g'] exI [of _ st] exI [of _ t']) simp
  with h k show ?thesis by (intro conjI)
qed


end
